theory Spec2Isabelle
  imports Complex_Main "HOL-Library.Sublist"
begin

section \<open>Errors raised by the library\<close>

text \<open>
  The failures raised: an \<open>Error\<close> thrown by the code itself, with its message; the
  \<open>TypeError\<close> of the runtime when a property is read from \<open>undefined\<close> or \<open>null\<close>; and the
  \<open>SyntaxError\<close> of \<open>querySelector\<close> for a text that is no selector.
\<close>

datatype js_error = Error string | TypeError | SyntaxError

section \<open>The element tree\<close>

text \<open>
  An element of the document: its tag name, its attributes in order (all but \<open>style\<close>), the
  declarations of its inline style (\<open>None\<close> when the element has no \<open>style\<close> attribute) and
  its element children in order. The trees handled here (the output of the typesetting
  engine, the drawing to export) are built of elements; text nodes are not modelled, so
  \<open>firstChild\<close> and \<open>lastChild\<close> are the first and last element child.

  The code holds references to nodes of a tree it mutates. A reference is modelled as a
  handle: the path of child indices from the root of the tree to the node.
\<close>

datatype Element =
  Element (tagName: string) (attributes: "(string \<times> string) list")
    (style: "(string \<times> string) list option") (children: "Element list")

type_synonym handle = "nat list"

definition getAttribute :: "Element \<Rightarrow> string \<Rightarrow> string option" where
  "getAttribute e name = map_of (attributes e) name"

definition hasAttribute :: "Element \<Rightarrow> string \<Rightarrow> bool" where
  "hasAttribute e name = (getAttribute e name \<noteq> None)"

fun assign :: "string \<Rightarrow> string \<Rightarrow> (string \<times> string) list \<Rightarrow> (string \<times> string) list" where
  "assign name v [] = [(name, v)]"
| "assign name v ((k, w) # kvs) =
     (if k = name then (k, v) # kvs else (k, w) # assign name v kvs)"

definition setAttribute :: "string \<Rightarrow> string \<Rightarrow> Element \<Rightarrow> Element" where
  "setAttribute name v e =
     Element (tagName e) (assign name v (attributes e)) (style e) (children e)"

definition removeAttribute :: "string \<Rightarrow> Element \<Rightarrow> Element" where
  "removeAttribute name e =
     Element (tagName e) (filter (\<lambda>kv. fst kv \<noteq> name) (attributes e)) (style e) (children e)"

text \<open>
  \<open>el.style.fill = v\<close> is an assignment to a property of the style declaration of the
  element. The browser reads the text \<open>v\<close> with its CSS parser: \<open>css name v\<close> is the value
  that it finds there for the property \<open>name\<close>, in the form in which the declaration
  stores and prints it (\<open>rgb(255, 0, 0)\<close> for the text \<open>#ff0000\<close>), and \<open>None\<close> when the
  text is no value of the property. The parser is a parameter of the model. An empty text
  removes the declaration of the property, a text that is no value of the property leaves
  the declarations as they are, and a value is stored in the place of the declaration of
  the property, or behind the others when there is none.
\<close>

type_synonym cssParser = "string \<Rightarrow> string \<Rightarrow> string option"

definition setDeclaration :: "string \<Rightarrow> string \<Rightarrow> Element \<Rightarrow> Element" where
  "setDeclaration name w e =
     Element (tagName e) (attributes e)
       (Some (assign name w (case style e of None \<Rightarrow> [] | Some ds \<Rightarrow> ds))) (children e)"

definition removeProperty :: "string \<Rightarrow> Element \<Rightarrow> Element" where
  "removeProperty name e =
     (case style e of
        None \<Rightarrow> e
      | Some ds \<Rightarrow>
          Element (tagName e) (attributes e) (Some (filter (\<lambda>kv. fst kv \<noteq> name) ds))
            (children e))"

definition setStyle :: "cssParser \<Rightarrow> string \<Rightarrow> string \<Rightarrow> Element \<Rightarrow> Element" where
  "setStyle css name v e =
     (if v = [] then removeProperty name e
      else (case css name v of
              None \<Rightarrow> e
            | Some w \<Rightarrow> setDeclaration name w e))"

fun nodeAt :: "Element \<Rightarrow> handle \<Rightarrow> Element option" where
  "nodeAt e [] = Some e"
| "nodeAt e (i # h) =
     (if i < length (children e) then nodeAt (children e ! i) h else None)"

fun updateAt :: "handle \<Rightarrow> (Element \<Rightarrow> Element) \<Rightarrow> Element \<Rightarrow> Element" where
  "updateAt [] f e = f e"
| "updateAt (i # h) f e =
     (if i < length (children e)
      then Element (tagName e) (attributes e) (style e)
             ((children e)[i := updateAt h f (children e ! i)])
      else e)"

text \<open>
  \<open>querySelector\<close> and \<open>querySelectorAll\<close> for a selector without combinators, given as the
  predicate it tests on one element: the descendants of the element (never the element
  itself) in document order, which is preorder.
\<close>

fun selectSelf :: "(Element \<Rightarrow> bool) \<Rightarrow> Element \<Rightarrow> handle list"
  and selectList :: "(Element \<Rightarrow> bool) \<Rightarrow> Element list \<Rightarrow> nat \<Rightarrow> handle list" where
  "selectSelf P (Element t a s cs) =
     (if P (Element t a s cs) then [[]] else []) @ selectList P cs 0"
| "selectList P [] i = []"
| "selectList P (c # cs) i = map ((#) i) (selectSelf P c) @ selectList P cs (Suc i)"

definition querySelectorAll :: "(Element \<Rightarrow> bool) \<Rightarrow> Element \<Rightarrow> handle list" where
  "querySelectorAll P e = selectList P (children e) 0"

definition querySelector :: "(Element \<Rightarrow> bool) \<Rightarrow> Element \<Rightarrow> handle option" where
  "querySelector P e = (case querySelectorAll P e of [] \<Rightarrow> None | h # _ \<Rightarrow> Some h)"

text \<open>The selectors of the code: a tag name, \<open>#id\<close>, \<open>[name="value"]\<close>.\<close>

definition byTag :: "string \<Rightarrow> Element \<Rightarrow> bool" where
  "byTag t e = (tagName e = t)"

definition byId :: "string \<Rightarrow> Element \<Rightarrow> bool" where
  "byId i e = (getAttribute e ''id'' = Some i)"

definition byAttribute :: "string \<Rightarrow> string \<Rightarrow> Element \<Rightarrow> bool" where
  "byAttribute name v e = (getAttribute e name = Some v)"


text \<open>
  \<open>querySelector(s)\<close> for a selector \<open>s\<close> that the code builds at run time. The browser
  reads \<open>s\<close> with its selector parser and raises a \<open>SyntaxError\<close> when \<open>s\<close> is no selector.
  The model knows the selectors \<open>#id\<close> for an identifier \<open>id\<close> written without escapes, in
  ASCII: a letter or an underscore, or a hyphen and then a letter or an underscore, followed
  by letters, digits, underscores and hyphens (in a document that is not in quirks mode it
  selects the elements whose \<open>id\<close> attribute is \<open>id\<close>). It knows that the empty text, the
  text \<open>#\<close> and a text that begins with \<open>#\<close> and a digit are no selectors. What the
  browser does with any other text is a parameter of the model, the \<open>engine\<close>: the failure
  raised, or the first node selected, if any.
\<close>

definition identStart :: "char \<Rightarrow> bool" where
  "identStart c = (c \<in> set ''abcdefghijklmnopqrstuvwxyzABCDEFGHIJKLMNOPQRSTUVWXYZ_'')"

definition identChar :: "char \<Rightarrow> bool" where
  "identChar c = (identStart c \<or> c \<in> set ''0123456789-'')"

definition cssIdentifier :: "string \<Rightarrow> bool" where
  "cssIdentifier i =
     (case i of
        [] \<Rightarrow> False
      | c # cs \<Rightarrow>
          (identStart c
           \<or> (c = CHR ''-'' \<and> (case cs of [] \<Rightarrow> False | d # ds \<Rightarrow> identStart d)))
          \<and> list_all identChar cs)"

type_synonym selectorEngine = "string \<Rightarrow> Element \<Rightarrow> js_error + handle option"

definition querySelectorString ::
  "selectorEngine \<Rightarrow> string \<Rightarrow> Element \<Rightarrow> js_error + handle option" where
  "querySelectorString engine selector e =
     (case selector of
        [] \<Rightarrow> Inl SyntaxError
      | c # i \<Rightarrow>
          if c = CHR ''#''
          then (if i = [] \<or> hd i \<in> set ''0123456789'' then Inl SyntaxError
                else if cssIdentifier i then Inr (querySelector (byId i) e)
                else engine selector e)
          else engine selector e)"

lemma cssIdentifier_start: "cssIdentifier i \<Longrightarrow> i \<noteq> [] \<and> hd i \<notin> set ''0123456789''"
  by (cases i) (auto simp: cssIdentifier_def identStart_def)

lemma querySelectorString_id:
  "cssIdentifier i \<Longrightarrow>
   querySelectorString engine (CHR ''#'' # i) e = Inr (querySelector (byId i) e)"
  using cssIdentifier_start[of i] by (simp add: querySelectorString_def)

text \<open>A handle returned by a query is the handle of a node of the tree that passes the test.\<close>

lemma select_valid:
  "h \<in> set (selectSelf P e) \<Longrightarrow> \<exists>t. nodeAt e h = Some t \<and> P t"
  "h \<in> set (selectList P cs i) \<Longrightarrow>
     \<exists>j k t. h = (i + j) # k \<and> j < length cs \<and> nodeAt (cs ! j) k = Some t \<and> P t"
proof (induction P e and P cs i arbitrary: h and h rule: selectSelf_selectList.induct)
  case (1 P t a s cs)
  then show ?case by (fastforce split: if_splits)
next
  case (2 P i)
  then show ?case by simp
next
  case (3 P c cs i)
  from "3.prems" consider
    (here) "h \<in> (#) i ` set (selectSelf P c)" | (later) "h \<in> set (selectList P cs (Suc i))"
    by auto
  then show ?case
  proof cases
    case here
    then obtain k where "h = i # k" "k \<in> set (selectSelf P c)" by auto
    with "3.IH"(1) obtain t where "nodeAt c k = Some t" "P t" by blast
    with \<open>h = i # k\<close> show ?thesis
      by (intro exI[of _ 0] exI[of _ k] exI[of _ t]) simp
  next
    case later
    with "3.IH"(2) obtain j k t where
      "h = (Suc i + j) # k" "j < length cs" "nodeAt (cs ! j) k = Some t" "P t"
      by blast
    then show ?thesis
      by (intro exI[of _ "Suc j"] exI[of _ k] exI[of _ t]) simp
  qed
qed

lemma querySelectorAll_valid:
  "h \<in> set (querySelectorAll P e) \<Longrightarrow> \<exists>t. nodeAt e h = Some t \<and> P t"
  unfolding querySelectorAll_def by (cases e) (auto dest!: select_valid(2))

lemma querySelector_valid:
  "querySelector P e = Some h \<Longrightarrow> \<exists>t. nodeAt e h = Some t \<and> P t"
  using querySelectorAll_valid[of h P e]
  by (auto simp: querySelector_def split: list.splits)

text \<open>A query returns every node below the root that passes the test, once.\<close>

lemma select_complete:
  "nodeAt e k = Some x \<Longrightarrow> P x \<Longrightarrow> k \<in> set (selectSelf P e)"
  "j < length cs \<Longrightarrow> nodeAt (cs ! j) k = Some x \<Longrightarrow> P x \<Longrightarrow> (i + j) # k \<in> set (selectList P cs i)"
proof (induction P e and P cs i arbitrary: k x and j k x rule: selectSelf_selectList.induct)
  case (1 P t a s cs)
  show ?case
  proof (cases k)
    case Nil
    then have "x = Element t a s cs" using "1.prems"(1) by simp
    then show ?thesis using Nil "1.prems"(2) by simp
  next
    case (Cons j k')
    then have "j < length cs" "nodeAt (cs ! j) k' = Some x"
      using "1.prems"(1) by (simp_all split: if_splits)
    then have "(0 + j) # k' \<in> set (selectList P cs 0)"
      using "1.IH" "1.prems"(2) by blast
    then show ?thesis using Cons by simp
  qed
next
  case (2 P i)
  then show ?case by simp
next
  case (3 P c cs i)
  show ?case
  proof (cases j)
    case 0
    then have "k \<in> set (selectSelf P c)"
      using "3.prems" "3.IH"(1) by simp
    then show ?thesis using 0 by simp
  next
    case (Suc j')
    then have "(Suc i + j') # k \<in> set (selectList P cs (Suc i))"
      using "3.prems" "3.IH"(2)[of j' k x] by simp
    then show ?thesis using Suc by simp
  qed
qed

lemma querySelectorAll_complete:
  "nodeAt e k = Some x \<Longrightarrow> k \<noteq> [] \<Longrightarrow> P x \<Longrightarrow> k \<in> set (querySelectorAll P e)"
proof -
  assume a: "nodeAt e k = Some x" "k \<noteq> []" "P x"
  then obtain j k' where k: "k = j # k'" by (cases k) auto
  then have "j < length (children e)" "nodeAt (children e ! j) k' = Some x"
    using a(1) by (simp_all split: if_splits)
  then have "(0 + j) # k' \<in> set (selectList P (children e) 0)"
    using a(3) select_complete(2) by blast
  then show ?thesis using k by (simp add: querySelectorAll_def)
qed

lemma select_distinct:
  "distinct (selectSelf P e)"
  "distinct (selectList P cs i)"
proof (induction P e and P cs i rule: selectSelf_selectList.induct)
  case (1 P t a s cs)
  have "[] \<notin> set (selectList P cs 0)"
    using select_valid(2)[of "[]" P cs 0] by auto
  then show ?case using 1 by simp
next
  case (2 P i)
  then show ?case by simp
next
  case (3 P c cs i)
  have "i # k \<notin> set (selectList P cs (Suc i))" for k
    using select_valid(2)[of "i # k" P cs "Suc i"] by auto
  then show ?case
    using 3 by (auto simp: distinct_map)
qed

lemma querySelectorAll_nonempty: "h \<in> set (querySelectorAll P e) \<Longrightarrow> h \<noteq> []"
  using select_valid(2)[of h P "children e" 0] by (auto simp: querySelectorAll_def)

lemma querySelector_nonempty: "querySelector P e = Some h \<Longrightarrow> h \<noteq> []"
  using querySelectorAll_nonempty[of h P e]
  by (auto simp: querySelector_def split: list.splits)

text \<open>Reading an attribute that was written or removed.\<close>

lemma map_of_assign: "map_of (assign name v kvs) = (map_of kvs)(name \<mapsto> v)"
  by (induction kvs) (auto simp: fun_eq_iff)

lemma getAttribute_setAttribute:
  "getAttribute (setAttribute n v e) name = (if name = n then Some v else getAttribute e name)"
  by (simp add: getAttribute_def setAttribute_def map_of_assign)

lemma getAttribute_removeAttribute:
  "getAttribute (removeAttribute n e) name = (if name = n then None else getAttribute e name)"
proof -
  have "map_of (filter (\<lambda>kv. fst kv \<noteq> n) kvs) name = (if name = n then None else map_of kvs name)"
    for kvs :: "(string \<times> string) list"
    by (induction kvs) auto
  then show ?thesis
    by (simp add: getAttribute_def removeAttribute_def)
qed

lemma setAttribute_sel:
  "tagName (setAttribute n v e) = tagName e"
  "children (setAttribute n v e) = children e"
  "style (setAttribute n v e) = style e"
  by (simp_all add: setAttribute_def)


section \<open>util/svg.ts: flattenSVG\<close>

text \<open>
  \<open>useElement.getAttribute('xlink:href') || useElement.getAttribute('href')\<close>: the second
  attribute is read when the first is absent or empty.
\<close>

definition useHref :: "Element \<Rightarrow> string option" where
  "useHref u =
     (case getAttribute u ''xlink:href'' of
        None \<Rightarrow> getAttribute u ''href''
      | Some v \<Rightarrow> if v = [] then getAttribute u ''href'' else Some v)"

text \<open>
  The clone of the referenced element with the attributes of the \<open>use\<close> element set on it,
  in their order, except \<open>xlink:href\<close> and \<open>href\<close>. The \<open>style\<close> attribute, when the \<open>use\<close>
  element has one, is among them.
\<close>

definition copyAttributes :: "Element \<Rightarrow> Element \<Rightarrow> Element" where
  "copyAttributes useElement clonedElement =
     (let c = fold (\<lambda>attr c. if fst attr \<noteq> ''xlink:href'' \<and> fst attr \<noteq> ''href''
                              then setAttribute (fst attr) (snd attr) c else c)
                (attributes useElement) clonedElement
      in case style useElement of
           None \<Rightarrow> c
         | Some ds \<Rightarrow> Element (tagName c) (attributes c) (Some ds) (children c))"

text \<open>
  The body of the \<open>forEach\<close> for a \<open>use\<close> element, up to the replacement: the failure that
  \<open>svgElement.querySelector(href)\<close> raises, or the element that is to replace the \<open>use\<close>
  element, \<open>None\<close> when the callback returns early.
\<close>

definition resolveUse :: "selectorEngine \<Rightarrow> Element \<Rightarrow> Element \<Rightarrow> js_error + Element option" where
  "resolveUse engine svgElement useElement =
     (case useHref useElement of
        None \<Rightarrow> Inr None
      | Some href \<Rightarrow>
          if href = [] then Inr None
          else (case querySelectorString engine href svgElement of
                  Inl e \<Rightarrow> Inl e
                | Inr None \<Rightarrow> Inr None
                | Inr (Some t) \<Rightarrow>
                    (case nodeAt svgElement t of
                       None \<Rightarrow> Inr None
                     | Some originalElement \<Rightarrow>
                         Inr (Some (copyAttributes useElement originalElement)))))"

text \<open>
  The \<open>forEach\<close> over the \<open>use\<close> elements found at the start, in document order. Replacing
  a node by one node leaves the handles of all other nodes of the document as they are.
  The elements below a replaced \<open>use\<close> element leave the document with it. Those of them
  that are in the list are still visited: \<open>svgElement.querySelector(href)\<close> is called with
  their reference, and may raise its failure; what is replaced then is a child of a node
  outside the document, since \<open>parentNode\<close> is a node of the part that left. So an element of
  the list is either attached, the node at a handle of the document, or detached, a node
  with its attributes.
\<close>

datatype useRef = Attached handle | Detached Element

definition detach :: "Element \<Rightarrow> handle \<Rightarrow> useRef \<Rightarrow> useRef" where
  "detach svgElement h r =
     (case r of
        Attached k \<Rightarrow>
          if prefix h k
          then (case nodeAt svgElement k of None \<Rightarrow> r | Some x \<Rightarrow> Detached x)
          else r
      | Detached x \<Rightarrow> r)"

function processUses ::
  "selectorEngine \<Rightarrow> useRef list \<Rightarrow> Element \<Rightarrow> js_error option \<times> Element" where
  "processUses engine [] svgElement = (None, svgElement)"
| "processUses engine (Detached useElement # rest) svgElement =
     (case resolveUse engine svgElement useElement of
        Inl e \<Rightarrow> (Some e, svgElement)
      | Inr clonedElement \<Rightarrow> processUses engine rest svgElement)"
| "processUses engine (Attached h # rest) svgElement =
     (case nodeAt svgElement h of
        None \<Rightarrow> processUses engine rest svgElement
      | Some useElement \<Rightarrow>
          (case resolveUse engine svgElement useElement of
             Inl e \<Rightarrow> (Some e, svgElement)
           | Inr None \<Rightarrow> processUses engine rest svgElement
           | Inr (Some clonedElement) \<Rightarrow>
               processUses engine (map (detach svgElement h) rest)
                 (updateAt h (\<lambda>useElement. clonedElement) svgElement)))"
  by pat_completeness auto
termination
  by (relation "measure (\<lambda>(engine, useElements, svgElement). length useElements)") auto

fun removeAt :: "handle \<Rightarrow> Element \<Rightarrow> Element" where
  "removeAt [] e = e"
| "removeAt [i] e =
     Element (tagName e) (attributes e) (style e)
       (take i (children e) @ drop (Suc i) (children e))"
| "removeAt (i # j # h) e =
     (if i < length (children e)
      then Element (tagName e) (attributes e) (style e)
             ((children e)[i := removeAt (j # h) (children e ! i)])
      else e)"

text \<open>
  \<open>flattenSVG\<close>: the failure raised, if any, and the document as the call leaves it.
\<close>

definition flattenSVG :: "selectorEngine \<Rightarrow> Element \<Rightarrow> js_error option \<times> Element" where
  "flattenSVG engine svgElement =
     (let useElements = querySelectorAll (byTag ''use'') svgElement
      in case processUses engine (map Attached useElements) svgElement of
           (Some e, svg') \<Rightarrow> (Some e, svg')
         | (None, svg') \<Rightarrow>
             (case querySelector (byTag ''defs'') svg' of
                None \<Rightarrow> (None, svg')
              | Some defsElement \<Rightarrow> (None, removeAt defsElement svg')))"


section \<open>elements/tex.ts: structural matching\<close>

text \<open>
  \<open>nodeMatches(node, subtreeNode)\<close>, with its early returns in the order of the source: the
  tag names, the \<open>data-mml-node\<close> attributes (\<open>null\<close> when absent), the \<open>data-c\<close> attributes
  when \<open>node\<close> has one, the numbers of children, then the children pairwise from the left
  (\<open>childrenMatch\<close> is that loop; it is only reached with lists of one length).
\<close>

fun nodeMatches :: "Element \<Rightarrow> Element \<Rightarrow> bool"
  and childrenMatch :: "Element list \<Rightarrow> Element list \<Rightarrow> bool" where
  "nodeMatches (Element t a s cs) (Element t' a' s' cs') =
     (if t \<noteq> t' then False
      else if getAttribute (Element t a s cs) ''data-mml-node''
              \<noteq> getAttribute (Element t' a' s' cs') ''data-mml-node'' then False
      else if hasAttribute (Element t a s cs) ''data-c''
              \<and> getAttribute (Element t a s cs) ''data-c''
                  \<noteq> getAttribute (Element t' a' s' cs') ''data-c'' then False
      else if length cs \<noteq> length cs' then False
      else childrenMatch cs cs')"
| "childrenMatch (c # cs) (d # ds) = (if \<not> nodeMatches c d then False else childrenMatch cs ds)"
| "childrenMatch [] ds = True"
| "childrenMatch cs [] = True"

text \<open>
  The sequential match of \<open>traverse\<close>: \<open>currentChild\<close> runs over the siblings from the child
  on (\<open>nextElementSibling\<close>), \<open>currentNode\<close> over the children of the candidate from its
  first child; the loop stops at the end of either or at the first pair that does not
  match. \<open>walk\<close> is the number of pairs it accepted: \<open>potentialMatch\<close> holds that many
  siblings, and \<open>lastMatch\<close> is the candidate's child of that number (\<open>null\<close> for none).
\<close>

fun walk :: "Element list \<Rightarrow> Element list \<Rightarrow> nat" where
  "walk (c # cs) (d # ds) = (if nodeMatches c d then Suc (walk cs ds) else 0)"
| "walk [] ds = 0"
| "walk cs [] = 0"

definition lastMatch :: "nat \<Rightarrow> nat option" where
  "lastMatch k = (if k = 0 then None else Some (k - 1))"

definition lastChild :: "Element \<Rightarrow> nat option" where
  "lastChild e = (if children e = [] then None else Some (length (children e) - 1))"

text \<open>
  The first \<open>forEach\<close> of \<open>traverse\<close> over the children of the node at handle \<open>p\<close>, from the
  child of index \<open>i\<close> on: the deep match of the child, then the sequential match starting
  at it.
\<close>

fun scanChildren :: "handle \<Rightarrow> Element list \<Rightarrow> nat \<Rightarrow> Element \<Rightarrow> handle list list" where
  "scanChildren p [] i subtree = []"
| "scanChildren p (child # rest) i subtree =
     (if nodeMatches child subtree then [[p @ [i]]] else [])
     @ (let k = walk (child # rest) (children subtree);
            potentialMatch = map (\<lambda>j. p @ [j]) [i ..< i + k]
        in if lastMatch k = lastChild subtree then [potentialMatch] else [])
     @ scanChildren p rest (Suc i) subtree"

fun traverse :: "handle \<Rightarrow> Element \<Rightarrow> Element \<Rightarrow> handle list list"
  and traverseChildren :: "handle \<Rightarrow> Element list \<Rightarrow> nat \<Rightarrow> Element \<Rightarrow> handle list list" where
  "traverse p (Element t a s cs) subtree =
     scanChildren p cs 0 subtree @ traverseChildren p cs 0 subtree"
| "traverseChildren p [] i subtree = []"
| "traverseChildren p (c # cs) i subtree =
     traverse (p @ [i]) c subtree @ traverseChildren p cs (Suc i) subtree"

text \<open>
  \<open>findSubtreeMatches(root, subtree)\<close>; \<open>p\<close> is the handle of \<open>root\<close>, so that the matches
  are handles into the tree that \<open>root\<close> is part of.
\<close>

definition findSubtreeMatches :: "handle \<Rightarrow> Element \<Rightarrow> Element \<Rightarrow> handle list list" where
  "findSubtreeMatches p tree subtree = traverse p tree subtree"


subsection \<open>The deep match\<close>

lemma childrenMatch_nth:
  "length cs = length ds \<Longrightarrow>
   childrenMatch cs ds \<longleftrightarrow> (\<forall>i<length cs. nodeMatches (cs ! i) (ds ! i))"
proof (induction cs ds rule: list_induct2)
  case Nil
  then show ?case by simp
next
  case (Cons c cs d ds)
  then show ?case by (auto simp: less_Suc_eq_0_disj)
qed

text \<open>
  Claim C2, as the code has it. The deep match of a target node \<open>n\<close> and a candidate node \<open>s\<close>
  holds exactly when their tag names and their \<open>data-mml-node\<close> attributes are equal, their
  \<open>data-c\<close> attributes are equal whenever the target node \<open>n\<close> carries one, and they have
  equally many children that deep-match pairwise in order. The comparison of \<open>data-c\<close> is
  made when the target node has the attribute, not when the candidate has it.
\<close>

theorem nodeMatches_iff:
  "nodeMatches n s \<longleftrightarrow>
     tagName n = tagName s
   \<and> getAttribute n ''data-mml-node'' = getAttribute s ''data-mml-node''
   \<and> (hasAttribute n ''data-c'' \<longrightarrow> getAttribute n ''data-c'' = getAttribute s ''data-c'')
   \<and> length (children n) = length (children s)
   \<and> (\<forall>i<length (children n). nodeMatches (children n ! i) (children s ! i))"
  by (cases n; cases s) (auto simp: childrenMatch_nth)

theorem nodeMatches_iff_witness:
  "hasAttribute (Element ''g'' [(''data-mml-node'', ''mi''), (''data-c'', ''78'')] None
                  [Element ''path'' [] None []]) ''data-c''
   \<and> nodeMatches
        (Element ''g'' [(''data-mml-node'', ''mi''), (''data-c'', ''78'')] None
           [Element ''path'' [] None []])
        (Element ''g'' [(''data-c'', ''78''), (''data-mml-node'', ''mi'')] None
           [Element ''path'' [] (Some [(''fill'', ''red'')]) []])"
  using nodeMatches_iff
    [of "Element ''g'' [(''data-mml-node'', ''mi''), (''data-c'', ''78'')] None
           [Element ''path'' [] None []]"
        "Element ''g'' [(''data-c'', ''78''), (''data-mml-node'', ''mi'')] None
           [Element ''path'' [] (Some [(''fill'', ''red'')]) []]"]
  by (simp add: getAttribute_def hasAttribute_def)

text \<open>
  Claim C2 as stated compares the \<open>data-c\<close> attributes whenever the candidate node carries
  one. A target \<open>path\<close> without \<open>data-c\<close> and a candidate \<open>path\<close> with \<open>data-c="78"\<close>: the code
  makes no comparison and the nodes match, against the stated condition.
\<close>

theorem nodeMatches_candidate_glyph_counterexample:
  "\<not> (nodeMatches (Element ''path'' [] None []) (Element ''path'' [(''data-c'', ''78'')] None [])
      \<longleftrightarrow>
        tagName (Element ''path'' [] None [])
          = tagName (Element ''path'' [(''data-c'', ''78'')] None [])
      \<and> getAttribute (Element ''path'' [] None []) ''data-mml-node''
          = getAttribute (Element ''path'' [(''data-c'', ''78'')] None []) ''data-mml-node''
      \<and> (hasAttribute (Element ''path'' [(''data-c'', ''78'')] None []) ''data-c''
           \<longrightarrow> getAttribute (Element ''path'' [] None []) ''data-c''
               = getAttribute (Element ''path'' [(''data-c'', ''78'')] None []) ''data-c'')
      \<and> length (children (Element ''path'' [] None []))
          = length (children (Element ''path'' [(''data-c'', ''78'')] None []))
      \<and> (\<forall>i<length (children (Element ''path'' [] None [])).
            nodeMatches (children (Element ''path'' [] None []) ! i)
              (children (Element ''path'' [(''data-c'', ''78'')] None []) ! i)))"
  by (simp add: getAttribute_def hasAttribute_def)


section \<open>elements/tex.ts: recolouring by match\<close>

text \<open>
  \<open>getMatchesByTex(tex)\<close>. The typesetting engine is a parameter: \<open>tex2svg s\<close> is the \<open>svg\<close>
  element that \<open>MathJax.tex2svg(s, {}).firstChild\<close> returns. \<open>rendered\<close> is the field
  \<open>this.rendered\<close>, which the constructor has flattened. A failure of \<open>flattenSVG\<close> ends the
  call. A \<open>querySelector\<close> that finds no node returns \<open>null\<close>: \<open>traverse(null)\<close>
  raises a \<open>TypeError\<close>, and so does \<open>nodeMatches(child, null)\<close>, which is called once the
  tree has a child. (A handle that \<open>querySelector\<close> returns is one of the tree, so the
  \<open>None\<close> branches of \<open>nodeAt\<close> are never taken.)
\<close>

definition getMatchesByTex ::
  "selectorEngine \<Rightarrow> (string \<Rightarrow> Element) \<Rightarrow> Element \<Rightarrow> string
     \<Rightarrow> js_error + handle list list" where
  "getMatchesByTex engine tex2svg rendered tex =
     (case flattenSVG engine (tex2svg tex) of
        (Some e, matchRendered) \<Rightarrow> Inl e
      | (None, matchRendered) \<Rightarrow>
          (let tree = querySelector (byAttribute ''data-mml-node'' ''math'') rendered;
               match = querySelector (byAttribute ''data-mml-node'' ''math'') matchRendered
           in case tree of
                None \<Rightarrow> Inl TypeError
              | Some p \<Rightarrow>
                  (case nodeAt rendered p of
                     None \<Rightarrow> Inl TypeError
                   | Some treeNode \<Rightarrow>
                       (case match of
                          None \<Rightarrow> if children treeNode = [] then Inr [] else Inl TypeError
                        | Some q \<Rightarrow>
                            (case nodeAt matchRendered q of
                               None \<Rightarrow> Inl TypeError
                             | Some matchNode \<Rightarrow>
                                 Inr (findSubtreeMatches p treeNode matchNode))))))"

text \<open>\<open>matchedNodes.forEach(node => node.style.fill = color)\<close>.\<close>

definition recolor :: "cssParser \<Rightarrow> string \<Rightarrow> handle list \<Rightarrow> Element \<Rightarrow> Element" where
  "recolor css color matchedNodes rendered =
     fold (\<lambda>node. updateAt node (setStyle css ''fill'' color)) matchedNodes rendered"

text \<open>
  \<open>setColorAll\<close> and \<open>setColor\<close> act on \<open>this.rendered\<close>. The result is the failure raised, if
  any, with the rendered tree as the call leaves it. The index is an integer. \<open>engine\<close> and
  \<open>css\<close> are the selector parser and the CSS parser of the browser.
\<close>

definition setColorAll ::
  "selectorEngine \<Rightarrow> cssParser \<Rightarrow> (string \<Rightarrow> Element) \<Rightarrow> Element \<Rightarrow> string \<Rightarrow> string
     \<Rightarrow> js_error option \<times> Element" where
  "setColorAll engine css tex2svg rendered tex color =
     (case getMatchesByTex engine tex2svg rendered tex of
        Inl e \<Rightarrow> (Some e, rendered)
      | Inr matches \<Rightarrow> (None, fold (recolor css color) matches rendered))"

definition setColor ::
  "selectorEngine \<Rightarrow> cssParser \<Rightarrow> (string \<Rightarrow> Element) \<Rightarrow> Element \<Rightarrow> string \<Rightarrow> string \<Rightarrow> int
     \<Rightarrow> js_error option \<times> Element" where
  "setColor engine css tex2svg rendered tex color index =
     (case getMatchesByTex engine tex2svg rendered tex of
        Inl e \<Rightarrow> (Some e, rendered)
      | Inr matches \<Rightarrow>
          if length matches = 0
          then (Some (Error (''Found no match for: '' @ tex)), rendered)
          else if index < 0 \<or> index \<ge> int (length matches)
          then (Some (Error ''Index is out of range''), rendered)
          else (None, recolor css color (matches ! nat index) rendered))"


subsection \<open>An engine for the examples\<close>

text \<open>
  The examples below need rendered expressions and a parser of colours. \<open>exampleTex2svg\<close> typesets a string of
  one-letter identifiers the way the engine lays its output out: the glyph outlines under
  \<open>defs\<close>, and under the \<open>math\<close> node one \<open>mi\<close> group for each letter, holding a \<open>use\<close>
  reference to the outline.
\<close>

definition glyphPath :: "char \<Rightarrow> Element" where
  "glyphPath c = Element ''path'' [(''id'', ''MJX-'' @ [c])] None []"

definition glyphUse :: "char \<Rightarrow> Element" where
  "glyphUse c =
     Element ''g'' [(''data-mml-node'', ''mi'')] None
       [Element ''use'' [(''data-c'', [c]), (''xlink:href'', ''#MJX-'' @ [c])] None []]"

definition exampleTex2svg :: "string \<Rightarrow> Element" where
  "exampleTex2svg s =
     Element ''svg'' [] None
       [Element ''defs'' [] None (map glyphPath (remdups s)),
        Element ''g'' [(''fill'', ''currentColor'')] None
          [Element ''g'' [(''data-mml-node'', ''math'')] None (map glyphUse s)]]"

text \<open>
  \<open>exampleCss\<close> reads three colours as a browser does: a colour name is stored in lower
  case, a colour in hexadecimal notation as \<open>rgb(...)\<close>. \<open>exampleEngine\<close> takes no text for
  a selector: the examples refer by \<open>#id\<close> only.
\<close>

definition exampleEngine :: selectorEngine where
  "exampleEngine selector e = Inl SyntaxError"

definition exampleCss :: cssParser where
  "exampleCss name v =
     (if name = ''fill'' \<and> v \<in> {''red'', ''RED''} then Some ''red''
      else if name = ''fill'' \<and> v = ''#ff0000'' then Some ''rgb(255, 0, 0)''
      else None)"

subsection \<open>Matching an expression against itself\<close>

text \<open>The number of nodes of a tree: a deep match holds between trees of one size only.\<close>

fun nodeCount :: "Element \<Rightarrow> nat" where
  "nodeCount (Element t a s cs) = Suc (sum_list (map nodeCount cs))"

lemma nodeCount_children: "nodeCount e = Suc (sum_list (map nodeCount (children e)))"
  by (cases e) simp

lemma nodeCount_pos: "0 < nodeCount d"
  by (cases d) simp

lemma member_le_sum_nodeCount: "d \<in> set ds \<Longrightarrow> nodeCount d \<le> sum_list (map nodeCount ds)"
  by (induction ds) auto

lemma nodeMatches_nodeCount:
  "nodeMatches n s \<Longrightarrow> nodeCount n = nodeCount s"
  "length cs = length ds \<Longrightarrow> childrenMatch cs ds \<Longrightarrow>
     sum_list (map nodeCount cs) = sum_list (map nodeCount ds)"
  by (induction n s and cs ds rule: nodeMatches_childrenMatch.induct) (auto split: if_splits)

lemma nodeMatches_same:
  "n = s \<Longrightarrow> nodeMatches n s"
  "cs = ds \<Longrightarrow> childrenMatch cs ds"
  by (induction n s and cs ds rule: nodeMatches_childrenMatch.induct) auto

lemma walk_same: "walk cs cs = length cs"
  by (induction cs) (auto simp: nodeMatches_same)

lemma walk_full_nodeCount:
  "walk cs ds = length ds \<Longrightarrow> sum_list (map nodeCount ds) \<le> sum_list (map nodeCount cs)"
  by (induction cs ds rule: walk.induct) (auto split: if_splits dest: nodeMatches_nodeCount(1))

lemma lastMatch_lastChild:
  "children T \<noteq> [] \<Longrightarrow> lastMatch k = lastChild T \<longleftrightarrow> k = length (children T)"
  by (cases "children T") (auto simp: lastMatch_def lastChild_def)

text \<open>Siblings with fewer nodes in all than the children of the candidate hold no match.\<close>

lemma scanChildren_none:
  "sum_list (map nodeCount ds) < sum_list (map nodeCount (children T)) \<Longrightarrow>
   \<forall>d\<in>set ds. nodeCount d < nodeCount T \<Longrightarrow> scanChildren p ds i T = []"
proof (induction ds arbitrary: i)
  case Nil
  then show ?case by simp
next
  case (Cons d ds)
  have ne: "children T \<noteq> []" using Cons.prems(1) by auto
  have "\<not> nodeMatches d T"
    using Cons.prems(2) nodeMatches_nodeCount(1)[of d T] by auto
  moreover have "walk (d # ds) (children T) \<noteq> length (children T)"
    using walk_full_nodeCount[of "d # ds" "children T"] Cons.prems(1) by auto
  moreover have "scanChildren p ds (Suc i) T = []"
    using Cons by auto
  ultimately show ?case
    by (simp add: lastMatch_lastChild[OF ne] Let_def)
qed

lemma scanChildren_self:
  assumes "children T \<noteq> []"
  shows "scanChildren p (children T) 0 T = [map (\<lambda>j. p @ [j]) [0..<length (children T)]]"
proof -
  obtain c cs where cs: "children T = c # cs"
    using assms by (cases "children T") auto
  have small: "\<forall>d\<in>set (c # cs). nodeCount d < nodeCount T"
    using member_le_sum_nodeCount[of _ "c # cs"] nodeCount_children[of T] cs by fastforce
  have "\<not> nodeMatches c T"
    using small nodeMatches_nodeCount(1)[of c T] by auto
  moreover have "scanChildren p cs (Suc 0) T = []"
    using small nodeCount_pos[of c] by (intro scanChildren_none) (auto simp: cs)
  moreover have "walk (c # cs) (c # cs) = length (c # cs)"
    by (rule walk_same)
  ultimately show ?thesis
    using lastMatch_lastChild[OF assms, of "length (children T)"]
    by (simp add: cs Let_def del: walk.simps upt_Suc)
qed

lemma traverse_none:
  "nodeCount e < nodeCount T \<Longrightarrow> traverse p e T = []"
  "\<forall>c\<in>set cs. nodeCount c < nodeCount T \<Longrightarrow> traverseChildren p cs i T = []"
proof (induction p e T and p cs i T rule: traverse_traverseChildren.induct)
  case (1 p t a s cs subtree)
  have total: "sum_list (map nodeCount cs) < sum_list (map nodeCount (children subtree))"
    using "1.prems" nodeCount_children[of subtree] by simp
  have each: "\<forall>c\<in>set cs. nodeCount c < nodeCount subtree"
    using member_le_sum_nodeCount[of _ cs] "1.prems" by fastforce
  show ?case
    using scanChildren_none[OF total each] "1.IH" each by simp
next
  case (2 p i subtree)
  then show ?case by simp
next
  case (3 p c cs i subtree)
  then show ?case by simp
qed

lemma findSubtreeMatches_self:
  assumes "children T \<noteq> []"
  shows "findSubtreeMatches p T T = [map (\<lambda>j. p @ [j]) [0..<length (children T)]]"
proof -
  have small: "\<forall>d\<in>set (children T). nodeCount d < nodeCount T"
    using member_le_sum_nodeCount[of _ "children T"] nodeCount_children[of T] by fastforce
  have "traverse p T T = scanChildren p (children T) 0 T @ traverseChildren p (children T) 0 T"
    by (cases T) simp
  then show ?thesis
    using scanChildren_self[OF assms] traverse_none(2)[OF small]
    by (simp add: findSubtreeMatches_def)
qed

text \<open>
  Claim C5, for an expression with something in it. Let \<open>rendered\<close> be the rendering of a
  TeX string, flattened as the constructor leaves it, with its \<open>math\<close> node at handle \<open>p\<close>,
  and let the \<open>math\<close> node have a child. Matching the same string against it returns
  exactly one match, and that match is the run of all children of the \<open>math\<close> node in order.
\<close>

theorem getMatchesByTex_self:
  assumes "flattenSVG engine (tex2svg tex) = (None, rendered)"
    and "querySelector (byAttribute ''data-mml-node'' ''math'') rendered = Some p"
    and "nodeAt rendered p = Some math"
    and "children math \<noteq> []"
  shows "getMatchesByTex engine tex2svg rendered tex
           = Inr [map (\<lambda>j. p @ [j]) [0..<length (children math)]]"
  using assms findSubtreeMatches_self[of math p]
  by (simp add: getMatchesByTex_def)

theorem getMatchesByTex_self_witness:
  "querySelector (byAttribute ''data-mml-node'' ''math'') (snd (flattenSVG exampleEngine (exampleTex2svg ''xyx'')))
     = Some [0, 0]
   \<and> getMatchesByTex exampleEngine exampleTex2svg (snd (flattenSVG exampleEngine (exampleTex2svg ''xyx''))) ''xyx''
     = Inr [[[0, 0, 0], [0, 0, 1], [0, 0, 2]]]"
proof -
  let ?r = "snd (flattenSVG exampleEngine (exampleTex2svg ''xyx''))"
  let ?m = "Element ''g'' [(''data-mml-node'', ''math'')] None
     [Element ''g'' [(''data-mml-node'', ''mi'')] None
        [Element ''path'' [(''id'', ''MJX-x''), (''data-c'', ''x'')] None []],
      Element ''g'' [(''data-mml-node'', ''mi'')] None
        [Element ''path'' [(''id'', ''MJX-y''), (''data-c'', ''y'')] None []],
      Element ''g'' [(''data-mml-node'', ''mi'')] None
        [Element ''path'' [(''id'', ''MJX-x''), (''data-c'', ''x'')] None []]]"
  have "fst (flattenSVG exampleEngine (exampleTex2svg ''xyx'')) = None"
    by code_simp
  then have f: "flattenSVG exampleEngine (exampleTex2svg ''xyx'') = (None, ?r)"
    by (simp add: prod_eq_iff)
  have q: "querySelector (byAttribute ''data-mml-node'' ''math'') ?r = Some [0, 0]"
    by code_simp
  have n: "nodeAt ?r [0, 0] = Some ?m"
    by code_simp
  have c: "children ?m \<noteq> []"
    by simp
  have "map (\<lambda>j. [0, 0] @ [j]) [0..<length (children ?m)] = [[0, 0, 0], [0, 0, 1], [0, 0, 2]]"
    by code_simp
  then show ?thesis
    using getMatchesByTex_self[of exampleEngine exampleTex2svg "''xyx''" ?r "[0, 0]" ?m, OF f q n c] q
    by simp
qed

text \<open>
  Claim C5 as stated covers every rendered expression. The rendering of the empty string
  has a \<open>math\<close> node without children: the loop over the children of the tree never runs,
  and matching the expression against itself returns no match at all.
\<close>

theorem getMatchesByTex_self_empty_counterexample:
  "flattenSVG exampleEngine (Element ''svg'' [] None
        [Element ''defs'' [] None [],
         Element ''g'' [] None [Element ''g'' [(''data-mml-node'', ''math'')] None []]])
     = (None, Element ''svg'' [] None
         [Element ''g'' [] None [Element ''g'' [(''data-mml-node'', ''math'')] None []]])
   \<and> getMatchesByTex exampleEngine
     (\<lambda>tex. Element ''svg'' [] None
        [Element ''defs'' [] None [],
         Element ''g'' [] None [Element ''g'' [(''data-mml-node'', ''math'')] None []]])
     (Element ''svg'' [] None
         [Element ''g'' [] None [Element ''g'' [(''data-mml-node'', ''math'')] None []]])
     '''' = Inr []"
  by code_simp

subsection \<open>What a recolouring changes\<close>

text \<open>
  The data of a node itself, apart from its children: tag name, attributes, inline style.
  \<open>dataAt r k\<close> is the data of the node at handle \<open>k\<close> of the tree \<open>r\<close>, \<open>None\<close> when \<open>r\<close> has no
  node there; two trees with the same \<open>dataAt\<close> at every handle are the same tree.
  \<open>withFill css color\<close> is the data of a node after \<open>node.style.fill = color\<close>.
\<close>

type_synonym node_data = "string \<times> (string \<times> string) list \<times> (string \<times> string) list option"

definition nodeData :: "Element \<Rightarrow> node_data" where
  "nodeData e = (tagName e, attributes e, style e)"

definition dataAt :: "Element \<Rightarrow> handle \<Rightarrow> node_data option" where
  "dataAt r k = map_option nodeData (nodeAt r k)"

definition withFill :: "cssParser \<Rightarrow> string \<Rightarrow> node_data \<Rightarrow> node_data" where
  "withFill css color d =
     (fst d, fst (snd d),
      if color = []
      then (case snd (snd d) of
              None \<Rightarrow> None
            | Some ds \<Rightarrow> Some (filter (\<lambda>kv. fst kv \<noteq> ''fill'') ds))
      else (case css ''fill'' color of
              None \<Rightarrow> snd (snd d)
            | Some w \<Rightarrow>
                Some (assign ''fill'' w (case snd (snd d) of None \<Rightarrow> [] | Some ds \<Rightarrow> ds))))"

lemma nodeAt_updateAt:
  assumes "\<And>e. children (f e) = children e"
  shows "map_option nodeData (nodeAt (updateAt h f r) k) =
         (if k = h then map_option (\<lambda>e. nodeData (f e)) (nodeAt r h)
          else map_option nodeData (nodeAt r k))"
proof (induction h arbitrary: r k)
  case Nil
  show ?case
  proof (cases k)
    case Nil
    then show ?thesis by simp
  next
    case (Cons j k')
    then show ?thesis using assms by simp
  qed
next
  case (Cons i h)
  show ?case
  proof (cases k)
    case Nil
    then show ?thesis by (simp add: nodeData_def)
  next
    case (Cons j k')
    show ?thesis
    proof (cases "i < length (children r)")
      case True
      then show ?thesis
        using Cons.IH[of "children r ! i" k'] Cons by (auto simp: nth_list_update)
    next
      case False
      then show ?thesis using Cons by auto
    qed
  qed
qed

lemma assign_idem: "assign name v (assign name v kvs) = assign name v kvs"
  by (induction kvs) auto

lemma nodeData_setStyle:
  "nodeData (setStyle css ''fill'' color e) = withFill css color (nodeData e)"
  by (simp add: nodeData_def setStyle_def setDeclaration_def removeProperty_def withFill_def
      split: option.splits)

lemma withFill_idem: "withFill css color (withFill css color d) = withFill css color d"
  by (simp add: withFill_def assign_idem split: option.splits)

lemma children_setStyle: "children (setStyle css name v e) = children e"
  by (simp add: setStyle_def setDeclaration_def removeProperty_def split: option.splits)

lemma dataAt_setStyle:
  "dataAt (updateAt h (setStyle css ''fill'' color) r) k =
     (if k = h then map_option (withFill css color) (dataAt r k) else dataAt r k)"
  using nodeAt_updateAt[of "setStyle css ''fill'' color" h r k]
  by (simp add: dataAt_def children_setStyle nodeData_setStyle option.map_comp comp_def)

lemma dataAt_recolor:
  "dataAt (recolor css color m r) k =
     (if k \<in> set m then map_option (withFill css color) (dataAt r k) else dataAt r k)"
proof (induction m arbitrary: r)
  case Nil
  then show ?case by (simp add: recolor_def)
next
  case (Cons h m)
  let ?r = "updateAt h (setStyle css ''fill'' color) r"
  have "recolor css color (h # m) r = recolor css color m ?r"
    by (simp add: recolor_def)
  then show ?case
    using Cons.IH[of ?r]
    by (auto simp: dataAt_setStyle option.map_comp comp_def withFill_idem)
qed

text \<open>
  Claim C3. Let the sub-expression have the matches \<open>matches\<close> in the rendered tree. With
  no match, \<open>setColor\<close> raises the lookup failure and the tree is as before. With a match
  and an index that is negative or not less than the number of matches, it raises the
  range failure and the tree is as before. Otherwise it raises nothing, and the tree it
  leaves differs from the one before in the style of the nodes of \<open>matches[index]\<close>, where
  the assignment of the colour to \<open>fill\<close> has taken place, and in nothing else: the fill
  of these nodes is the colour, in the form in which the browser stores it. (With no match
  the lookup failure is raised whatever the index. A text that is no colour changes no
  fill, and the empty text removes the fill.)
\<close>

theorem setColor_outcome:
  assumes "getMatchesByTex engine tex2svg rendered tex = Inr matches"
  shows "(matches = [] \<longrightarrow>
            setColor engine css tex2svg rendered tex color index
              = (Some (Error (''Found no match for: '' @ tex)), rendered))
       \<and> (matches \<noteq> [] \<and> (index < 0 \<or> int (length matches) \<le> index) \<longrightarrow>
            setColor engine css tex2svg rendered tex color index
              = (Some (Error ''Index is out of range''), rendered))
       \<and> (matches \<noteq> [] \<and> 0 \<le> index \<and> index < int (length matches) \<longrightarrow>
            fst (setColor engine css tex2svg rendered tex color index) = None
          \<and> (\<forall>k. dataAt (snd (setColor engine css tex2svg rendered tex color index)) k
                   = (if k \<in> set (matches ! nat index)
                      then map_option (withFill css color) (dataAt rendered k)
                      else dataAt rendered k))
          \<and> (\<forall>k w. k \<in> set (matches ! nat index) \<and> color \<noteq> [] \<and> css ''fill'' color = Some w
                   \<and> nodeAt rendered k \<noteq> None \<longrightarrow>
                 (\<exists>t a ds. dataAt (snd (setColor engine css tex2svg rendered tex color index)) k
                             = Some (t, a, Some ds) \<and> map_of ds ''fill'' = Some w)))"
proof -
  have fill: "\<exists>t a ds. map_option (withFill css color) (dataAt rendered k) = Some (t, a, Some ds)
                \<and> map_of ds ''fill'' = Some w"
    if "color \<noteq> []" "css ''fill'' color = Some w" "nodeAt rendered k \<noteq> None" for k w
  proof -
    from that(3) obtain y where y: "nodeAt rendered k = Some y"
      by auto
    obtain t a b where d: "nodeData y = (t, a, b)"
      by (cases "nodeData y") auto
    let ?ds = "assign ''fill'' w (case b of None \<Rightarrow> [] | Some ds \<Rightarrow> ds)"
    have "map_option (withFill css color) (dataAt rendered k) = Some (t, a, Some ?ds)"
      using that(1,2) y d by (simp add: dataAt_def withFill_def)
    moreover have "map_of ?ds ''fill'' = Some w"
      by (simp add: map_of_assign)
    ultimately show ?thesis by blast
  qed
  show ?thesis
    using assms fill by (auto simp: setColor_def dataAt_recolor)
qed

theorem setColor_outcome_witness:
  "getMatchesByTex exampleEngine exampleTex2svg (snd (flattenSVG exampleEngine (exampleTex2svg ''xyx''))) ''x''
     = Inr [[[0, 0, 0]], [[0, 0, 2]]]
   \<and> getMatchesByTex exampleEngine exampleTex2svg (snd (flattenSVG exampleEngine (exampleTex2svg ''xyx''))) ''z'' = Inr []
   \<and> setColor exampleEngine exampleCss exampleTex2svg (snd (flattenSVG exampleEngine (exampleTex2svg ''xyx''))) ''z'' ''red'' 0
     = (Some (Error ''Found no match for: z''), snd (flattenSVG exampleEngine (exampleTex2svg ''xyx'')))
   \<and> setColor exampleEngine exampleCss exampleTex2svg (snd (flattenSVG exampleEngine (exampleTex2svg ''xyx''))) ''x'' ''red'' 2
     = (Some (Error ''Index is out of range''), snd (flattenSVG exampleEngine (exampleTex2svg ''xyx'')))
   \<and> fst (setColor exampleEngine exampleCss exampleTex2svg (snd (flattenSVG exampleEngine (exampleTex2svg ''xyx'')))
           ''x'' ''#ff0000'' 1) = None
   \<and> dataAt (snd (setColor exampleEngine exampleCss exampleTex2svg (snd (flattenSVG exampleEngine (exampleTex2svg ''xyx'')))
                   ''x'' ''#ff0000'' 1)) [0, 0, 2]
     = Some (''g'', [(''data-mml-node'', ''mi'')], Some [(''fill'', ''rgb(255, 0, 0)'')])
   \<and> dataAt (snd (setColor exampleEngine exampleCss exampleTex2svg (snd (flattenSVG exampleEngine (exampleTex2svg ''xyx'')))
                   ''x'' ''#ff0000'' 1)) [0, 0, 0]
     = Some (''g'', [(''data-mml-node'', ''mi'')], None)
   \<and> dataAt (snd (setColor exampleEngine exampleCss exampleTex2svg (snd (flattenSVG exampleEngine (exampleTex2svg ''xyx'')))
                   ''x'' ''no colour'' 1)) [0, 0, 2]
     = Some (''g'', [(''data-mml-node'', ''mi'')], None)"
proof -
  let ?r = "snd (flattenSVG exampleEngine (exampleTex2svg ''xyx''))"
  have x: "getMatchesByTex exampleEngine exampleTex2svg ?r ''x'' = Inr [[[0, 0, 0]], [[0, 0, 2]]]"
    by code_simp
  have z: "getMatchesByTex exampleEngine exampleTex2svg ?r ''z'' = Inr []"
    by code_simp
  have d2: "dataAt ?r [0, 0, 2] = Some (''g'', [(''data-mml-node'', ''mi'')], None)"
    by code_simp
  have d0: "dataAt ?r [0, 0, 0] = Some (''g'', [(''data-mml-node'', ''mi'')], None)"
    by code_simp
  show ?thesis
    using setColor_outcome[OF z, of exampleCss "''red''" 0]
      setColor_outcome[OF x, of exampleCss "''red''" 2]
      setColor_outcome[OF x, of exampleCss "''#ff0000''" 1]
      setColor_outcome[OF x, of exampleCss "''no colour''" 1] x z d0 d2
    by (simp add: withFill_def exampleCss_def)
qed

text \<open>
  Claim C9. When the sub-expression has no match in the rendered tree, \<open>setColorAll\<close>
  raises nothing and leaves the tree as it is, where \<open>setColor\<close> raises the lookup
  failure.
\<close>

theorem setColorAll_no_match:
  assumes "getMatchesByTex engine tex2svg rendered tex = Inr []"
  shows "setColorAll engine css tex2svg rendered tex color = (None, rendered)
       \<and> setColor engine css tex2svg rendered tex color index
           = (Some (Error (''Found no match for: '' @ tex)), rendered)"
  using assms by (simp add: setColorAll_def setColor_def)

theorem setColorAll_no_match_witness:
  "getMatchesByTex exampleEngine exampleTex2svg (snd (flattenSVG exampleEngine (exampleTex2svg ''xyx''))) ''zz'' = Inr []
   \<and> setColorAll exampleEngine exampleCss exampleTex2svg (snd (flattenSVG exampleEngine (exampleTex2svg ''xyx''))) ''zz'' ''red''
     = (None, snd (flattenSVG exampleEngine (exampleTex2svg ''xyx'')))
   \<and> setColor exampleEngine exampleCss exampleTex2svg (snd (flattenSVG exampleEngine (exampleTex2svg ''xyx''))) ''zz'' ''red'' 0
     = (Some (Error ''Found no match for: zz''), snd (flattenSVG exampleEngine (exampleTex2svg ''xyx'')))"
proof -
  have z: "getMatchesByTex exampleEngine exampleTex2svg (snd (flattenSVG exampleEngine (exampleTex2svg ''xyx''))) ''zz'' = Inr []"
    by code_simp
  show ?thesis
    using setColorAll_no_match[OF z, of exampleCss "''red''" 0] z by simp
qed

section \<open>Numbers\<close>

text \<open>
  A \<open>number\<close> of the language is a double. The model keeps the special values of the
  format apart, because the geometry code divides by zero on purpose and tests the result:
  \<open>NaN\<close>, the two infinities, the negative zero, and the finite values, \<open>Finite 0\<close> being
  the positive zero. A finite value is a real. The operators follow IEEE 754 on the
  special values; on finite values \<open>addN\<close>, \<open>subN\<close>, \<open>mulN\<close> and \<open>divN\<close> give the exact
  result, without rounding, overflow or underflow, and \<open>add64\<close>, \<open>sub64\<close>, \<open>mul64\<close> and
  \<open>div64\<close> below give it rounded to the format.
\<close>

datatype number = NaN | PosInfinity | NegInfinity | NegZero | Finite real

definition isNaN :: "number \<Rightarrow> bool" where
  "isNaN a = (a = NaN)"

definition isInfinite :: "number \<Rightarrow> bool" where
  "isInfinite a = (a = PosInfinity \<or> a = NegInfinity)"

definition isFinite :: "number \<Rightarrow> bool" where
  "isFinite a = (\<not> isNaN a \<and> \<not> isInfinite a)"

text \<open>The value of a finite number (both zeros have the value 0).\<close>

fun val :: "number \<Rightarrow> real" where
  "val (Finite r) = r"
| "val a = 0"

definition isZero :: "number \<Rightarrow> bool" where
  "isZero a = (isFinite a \<and> val a = 0)"

text \<open>The sign bit.\<close>

fun negative :: "number \<Rightarrow> bool" where
  "negative (Finite r) = (r < 0)"
| "negative NegZero = True"
| "negative NegInfinity = True"
| "negative a = False"

definition zero :: "bool \<Rightarrow> number" where
  "zero neg = (if neg then NegZero else Finite 0)"

definition infinity :: "bool \<Rightarrow> number" where
  "infinity neg = (if neg then NegInfinity else PosInfinity)"

text \<open>A finite result, with the sign of a zero result given apart.\<close>

definition finite_result :: "real \<Rightarrow> bool \<Rightarrow> number" where
  "finite_result r neg = (if r = 0 then zero neg else Finite r)"

definition mulN :: "number \<Rightarrow> number \<Rightarrow> number" where
  "mulN a b =
     (if isNaN a \<or> isNaN b then NaN
      else if isInfinite a \<or> isInfinite b
      then (if isZero a \<or> isZero b then NaN else infinity (negative a \<noteq> negative b))
      else finite_result (val a * val b) (negative a \<noteq> negative b))"

definition divN :: "number \<Rightarrow> number \<Rightarrow> number" where
  "divN a b =
     (if isNaN a \<or> isNaN b then NaN
      else if isInfinite a
      then (if isInfinite b then NaN else infinity (negative a \<noteq> negative b))
      else if isInfinite b then zero (negative a \<noteq> negative b)
      else if isZero b
      then (if isZero a then NaN else infinity (negative a \<noteq> negative b))
      else finite_result (val a / val b) (negative a \<noteq> negative b))"

definition addN :: "number \<Rightarrow> number \<Rightarrow> number" where
  "addN a b =
     (if isNaN a \<or> isNaN b then NaN
      else if isInfinite a
      then (if isInfinite b \<and> negative a \<noteq> negative b then NaN else a)
      else if isInfinite b then b
      else finite_result (val a + val b) (a = NegZero \<and> b = NegZero))"

definition negN :: "number \<Rightarrow> number" where
  "negN a =
     (case a of
        NaN \<Rightarrow> NaN
      | PosInfinity \<Rightarrow> NegInfinity
      | NegInfinity \<Rightarrow> PosInfinity
      | NegZero \<Rightarrow> Finite 0
      | Finite r \<Rightarrow> if r = 0 then NegZero else Finite (- r))"

definition subN :: "number \<Rightarrow> number \<Rightarrow> number" where
  "subN a b = addN a (negN b)"





subsection \<open>The arithmetic of finite numbers\<close>

lemma isFinite_cases: "isFinite a \<longleftrightarrow> a = NegZero \<or> (\<exists>r. a = Finite r)"
  by (cases a) (auto simp: isFinite_def isNaN_def isInfinite_def)












subsection \<open>Rounding to the format\<close>













section \<open>util/math.ts: factorial\<close>

text \<open>
  \<^verbatim>\<open>
  export function factorial(n: number) {
      if (n < 1) { return 1; } else { return n * this.factorial(n - 1); }
  }
  \<close>
  The recursion is open: it goes through the property \<open>factorial\<close> of the receiver
  \<open>this\<close>. The receiver is a parameter of the model: \<open>None\<close> is \<open>undefined\<close>, the receiver
  of a function of an ES module called by its name; \<open>Some f\<close> is an object whose property
  \<open>factorial\<close> is \<open>f\<close>. Reading a property of \<open>undefined\<close> raises \<open>TypeError\<close>.
\<close>

definition factorial :: "(real \<Rightarrow> js_error + real) option \<Rightarrow> real \<Rightarrow> js_error + real" where
  "factorial this n =
     (if n < 1 then Inr 1
      else (case this of
              None \<Rightarrow> Inl TypeError
            | Some f \<Rightarrow> (case f (n - 1) of Inl e \<Rightarrow> Inl e | Inr r \<Rightarrow> Inr (n * r))))"

text \<open>
  Claim C10. Called as a function of the module (receiver \<open>undefined\<close>), \<open>factorial\<close> returns 1
  for every \<open>n < 1\<close> and raises a \<open>TypeError\<close> for every \<open>n \<ge> 1\<close>; it never returns a product.
\<close>

theorem factorial_module_scope:
  "factorial None n = (if n < 1 then Inr 1 else Inl TypeError)"
  by (simp add: factorial_def)

theorem factorial_module_scope_witness:
  "factorial None 0 = Inr 1 \<and> factorial None 1 = Inl TypeError \<and> factorial None 5 = Inl TypeError"
  using factorial_module_scope [of 0] factorial_module_scope [of 1] factorial_module_scope [of 5]
  by simp

section \<open>util/math.ts: pointWhereTwoLinesIntersect\<close>








subsection \<open>The computation in exact arithmetic\<close>














section \<open>CoordinateSystem: findLineEndpoints\<close>















section \<open>util/svg.ts: embedMarkers\<close>

text \<open>
  What the code takes from the runtime and the browser is a parameter of the model: the
  reading and printing of numbers, the functions of \<open>Math\<close>, the geometry of a path
  element, and the replacement by the regular expression of \<open>trimPath\<close>
  (\<open>replaceMoveTo d s\<close> is \<open>d.replace(/M\s?\d+\.?\d*,\s?\d+\.?\d*/, s)\<close>), and the selector
  parser for the selectors that the model does not read itself. \<open>parseFloat\<close> takes \<open>None\<close>
  for \<open>null\<close>.
\<close>

record Runtime =
  parseFloat :: "string option \<Rightarrow> number"
  toString :: "number \<Rightarrow> string"
  Math_atan2 :: "number \<Rightarrow> number \<Rightarrow> number"
  Math_cos :: "number \<Rightarrow> number"
  Math_sin :: "number \<Rightarrow> number"
  Math_PI :: number
  getTotalLength :: "Element \<Rightarrow> number"
  getPointAtLength :: "Element \<Rightarrow> number \<Rightarrow> number \<times> number"
  replaceMoveTo :: "string \<Rightarrow> string \<Rightarrow> string"
  selectorEngine :: selectorEngine

text \<open>\<open>el.getAttribute(name) || "0"\<close>.\<close>

definition attributeOrZero :: "Element \<Rightarrow> string \<Rightarrow> string option" where
  "attributeOrZero el name =
     (case getAttribute el name of
        None \<Rightarrow> Some ''0''
      | Some v \<Rightarrow> if v = [] then Some ''0'' else Some v)"

definition trimLine :: "Runtime \<Rightarrow> number \<Rightarrow> Element \<Rightarrow> bool \<Rightarrow> Element" where
  "trimLine rt trimPixels el isEnd =
     (let x1 = parseFloat rt (attributeOrZero el ''x1'');
          y1 = parseFloat rt (attributeOrZero el ''y1'');
          x2 = parseFloat rt (attributeOrZero el ''x2'');
          y2 = parseFloat rt (attributeOrZero el ''y2'');
          angle = Math_atan2 rt (subN y2 y1) (subN x2 x1)
      in if isEnd
         then setAttribute ''y2'' (toString rt (subN y2 (mulN trimPixels (Math_sin rt angle))))
                (setAttribute ''x2'' (toString rt (subN x2 (mulN trimPixels (Math_cos rt angle)))) el)
         else setAttribute ''y1'' (toString rt (addN y1 (mulN trimPixels (Math_sin rt angle))))
                (setAttribute ''x1'' (toString rt (addN x1 (mulN trimPixels (Math_cos rt angle)))) el))"

text \<open>
  \<open>trimPath\<close> reads the attribute \<open>d\<close> without a default: on a path without it, \<open>d.split\<close>
  and \<open>d.replace\<close> raise a \<open>TypeError\<close>. \<open>d.split('L')[0]\<close> is \<open>d\<close> up to its first \<open>L\<close>.
\<close>

definition trimPath :: "Runtime \<Rightarrow> number \<Rightarrow> Element \<Rightarrow> bool \<Rightarrow> js_error + Element" where
  "trimPath rt trimPixels el isEnd =
     (let totalLength = getTotalLength rt el
      in if isEnd
         then (let newEndPoint = getPointAtLength rt el (subN totalLength trimPixels)
               in case getAttribute el ''d'' of
                    None \<Rightarrow> Inl TypeError
                  | Some d \<Rightarrow>
                      Inr (setAttribute ''d''
                             (takeWhile (\<lambda>c. c \<noteq> CHR ''L'') d @ ''L '' @ toString rt (fst newEndPoint)
                                @ '','' @ toString rt (snd newEndPoint)) el))
         else (let newStartPoint = getPointAtLength rt el trimPixels
               in case getAttribute el ''d'' of
                    None \<Rightarrow> Inl TypeError
                  | Some d \<Rightarrow>
                      Inr (setAttribute ''d''
                             (replaceMoveTo rt d
                                (''M '' @ toString rt (fst newStartPoint) @ '',''
                                   @ toString rt (snd newStartPoint))) el)))"

text \<open>
  \<open>markerUrl.replace(/^url\(#/, '').replace(/\)$/, '')\<close>: the prefix \<open>url(#\<close> and then the
  final \<open>)\<close> are removed when they are there.
\<close>

definition markerIdOf :: "string \<Rightarrow> string" where
  "markerIdOf markerUrl =
     (let s = (if take 5 markerUrl = ''url(#'' then drop 5 markerUrl else markerUrl)
      in if s \<noteq> [] \<and> last s = CHR '')'' then butlast s else s)"

text \<open>\<open>d.split(/[ ,MLCZz]/).filter(Boolean)\<close>: the pieces of \<open>d\<close> between the separators, the empty ones left out.\<close>

fun splitPath :: "string \<Rightarrow> string \<Rightarrow> string list" where
  "splitPath acc [] = (if acc = [] then [] else [acc])"
| "splitPath acc (c # cs) =
     (if c \<in> set '' ,MLCZz''
      then (if acc = [] then [] else [acc]) @ splitPath [] cs
      else splitPath (acc @ [c]) cs)"

definition toLowerCase :: "string \<Rightarrow> string" where
  "toLowerCase s =
     map (\<lambda>c. let n = (of_char c :: nat) in if 65 \<le> n \<and> n \<le> 90 then char_of (n + 32) else c) s"

text \<open>
  \<open>processMarker(el, markerPosition)\<close> for the element at handle \<open>h\<close> of the document
  \<open>svgElement\<close>: the failure raised, if any, and the document as the call leaves it. The
  marker is looked up with the selector \<open>#\<close> followed by the text that the marker attribute
  names, before anything is written. An \<open>undefined\<close> coordinate behaves as \<open>NaN\<close> in the
  arithmetic. The cloned glyph is appended
  to the root, which leaves the handles of all nodes as they are.
\<close>

definition arrowTransform ::
  "Runtime \<Rightarrow> Element \<Rightarrow> string \<Rightarrow> number \<Rightarrow> number \<Rightarrow> number \<Rightarrow> string" where
  "arrowTransform rt marker markerPosition x y angle0 =
     (let refX = parseFloat rt (getAttribute marker ''refX'');
          refY = parseFloat rt (getAttribute marker ''refY'');
          scale = Finite (3 / 2);
          angle = (if markerPosition = ''marker-start'' then addN angle0 (Math_PI rt) else angle0);
          adjustedX = addN (subN x (mulN (mulN refX scale) (Math_cos rt angle)))
                        (mulN (mulN refY scale) (Math_sin rt angle));
          adjustedY = subN (subN y (mulN (mulN refX scale) (Math_sin rt angle)))
                        (mulN (mulN refY scale) (Math_cos rt angle))
      in ''translate('' @ toString rt adjustedX @ '','' @ toString rt adjustedY @ '') rotate(''
           @ toString rt (mulN angle (divN (Finite 180) (Math_PI rt))) @ '') scale(''
           @ toString rt scale @ '')'')"

definition appendChild :: "Element \<Rightarrow> Element \<Rightarrow> Element" where
  "appendChild child e = Element (tagName e) (attributes e) (style e) (children e @ [child])"

definition firstChild :: "Element \<Rightarrow> Element option" where
  "firstChild e = (case children e of [] \<Rightarrow> None | c # _ \<Rightarrow> Some c)"

text \<open>
  The last lines of \<open>processMarker\<close>, after the \<open>switch\<close>: \<open>marker.firstChild.cloneNode(true)\<close>
  raises a \<open>TypeError\<close> when the marker was not found or has no child.
\<close>

definition placeArrow ::
  "Runtime \<Rightarrow> handle \<Rightarrow> string \<Rightarrow> handle option \<Rightarrow> number \<Rightarrow> number \<Rightarrow> number \<Rightarrow> Element
     \<Rightarrow> js_error option \<times> Element" where
  "placeArrow rt h markerPosition marker x y angle svgElement =
     (case marker of
        None \<Rightarrow> (Some TypeError, svgElement)
      | Some m \<Rightarrow>
          (case nodeAt svgElement m of
             None \<Rightarrow> (Some TypeError, svgElement)
           | Some markerElement \<Rightarrow>
               (case firstChild markerElement of
                  None \<Rightarrow> (Some TypeError, svgElement)
                | Some glyph \<Rightarrow>
                    (let clonedPath =
                           setAttribute ''transform''
                             (arrowTransform rt markerElement markerPosition x y angle) glyph
                     in (None,
                         updateAt h (removeAttribute markerPosition)
                           (appendChild clonedPath svgElement))))))"

text \<open>
  The anchor and the angle of an end of a line (\<open>case 'line'\<close>) and of a path
  (\<open>case 'path'\<close>, where the angle is 0).
\<close>

definition lineAnchor :: "Runtime \<Rightarrow> Element \<Rightarrow> bool \<Rightarrow> number \<times> number \<times> number" where
  "lineAnchor rt el isEnd =
     (if isEnd
      then (let x = parseFloat rt (attributeOrZero el ''x2'');
                y = parseFloat rt (attributeOrZero el ''y2'');
                x1 = parseFloat rt (attributeOrZero el ''x1'');
                y1 = parseFloat rt (attributeOrZero el ''y1'')
            in (x, y, Math_atan2 rt (subN y y1) (subN x x1)))
      else (let x = parseFloat rt (attributeOrZero el ''x1'');
                y = parseFloat rt (attributeOrZero el ''y1'');
                x2 = parseFloat rt (attributeOrZero el ''x2'');
                y2 = parseFloat rt (attributeOrZero el ''y2'')
            in (x, y, Math_atan2 rt (subN y2 y) (subN x2 x))))"

definition pathAnchor :: "Runtime \<Rightarrow> Element \<Rightarrow> bool \<Rightarrow> number \<times> number \<times> number" where
  "pathAnchor rt el isEnd =
     (let d = (case getAttribute el ''d'' of None \<Rightarrow> [] | Some v \<Rightarrow> v);
          pieces = splitPath [] d;
          coords = (if isEnd then drop (length pieces - 2) pieces else take 2 pieces);
          x = (if length coords = 2 then parseFloat rt (Some (coords ! 0)) else NaN);
          y = (if length coords = 2 then parseFloat rt (Some (coords ! 1)) else NaN)
      in (x, y, Finite 0))"

definition processMarker ::
  "Runtime \<Rightarrow> number \<Rightarrow> handle \<Rightarrow> string \<Rightarrow> Element \<Rightarrow> js_error option \<times> Element" where
  "processMarker rt trimPixels h markerPosition svgElement =
     (case nodeAt svgElement h of
        None \<Rightarrow> (None, svgElement)
      | Some el \<Rightarrow>
          (case getAttribute el markerPosition of
             None \<Rightarrow> (None, svgElement)
           | Some markerUrl \<Rightarrow>
               if markerUrl = [] then (None, svgElement)
               else
                 (let markerId = markerIdOf markerUrl;
                      isEnd = (markerPosition = ''marker-end'')
                  in case querySelectorString (selectorEngine rt) (CHR ''#'' # markerId) svgElement of
                       Inl e \<Rightarrow> (Some e, svgElement)
                     | Inr marker \<Rightarrow>
                         if toLowerCase (tagName el) = ''line''
                         then (case lineAnchor rt el isEnd of
                                 (x, y, angle) \<Rightarrow>
                                   placeArrow rt h markerPosition marker x y angle
                                     (updateAt h (\<lambda>el. trimLine rt trimPixels el isEnd)
                                        svgElement))
                         else if toLowerCase (tagName el) = ''path''
                         then (case pathAnchor rt el isEnd of
                                 (x, y, angle) \<Rightarrow>
                                   (case trimPath rt trimPixels el isEnd of
                                      Inl e \<Rightarrow> (Some e, svgElement)
                                    | Inr el' \<Rightarrow>
                                        placeArrow rt h markerPosition marker x y angle
                                          (updateAt h (\<lambda>el. el') svgElement)))
                         else (None, svgElement))))"

fun processMarkers ::
  "Runtime \<Rightarrow> number \<Rightarrow> (handle \<times> string) list \<Rightarrow> Element \<Rightarrow> js_error option \<times> Element" where
  "processMarkers rt trimPixels [] svgElement = (None, svgElement)"
| "processMarkers rt trimPixels ((h, markerPosition) # rest) svgElement =
     (case processMarker rt trimPixels h markerPosition svgElement of
        (Some e, svg') \<Rightarrow> (Some e, svg')
      | (None, svg') \<Rightarrow> processMarkers rt trimPixels rest svg')"

text \<open>The selectors \<open>line[marker-end], path[marker-end]\<close> and \<open>line[marker-start], path[marker-start]\<close>.\<close>

definition lineOrPathWith :: "string \<Rightarrow> Element \<Rightarrow> bool" where
  "lineOrPathWith name e = ((byTag ''line'' e \<or> byTag ''path'' e) \<and> hasAttribute e name)"

definition embedMarkers :: "Runtime \<Rightarrow> number \<Rightarrow> Element \<Rightarrow> js_error option \<times> Element" where
  "embedMarkers rt trimPixels svgElement =
     (let elementsWithMarkersEnd = querySelectorAll (lineOrPathWith ''marker-end'') svgElement;
          elementsWithMarkersStart = querySelectorAll (lineOrPathWith ''marker-start'') svgElement
      in processMarkers rt trimPixels
           (map (\<lambda>el. (el, ''marker-end'')) elementsWithMarkersEnd
              @ map (\<lambda>el. (el, ''marker-start'')) elementsWithMarkersStart)
           svgElement)"

section \<open>util/svg.ts: bundle and download\<close>

datatype ExportTarget = BROWSER | ILLUSTRATOR | FIGMA

text \<open>
  \<open>createInlineStyledSvg\<close> copies the drawing, attaches the copy to the page and writes
  into it the styles that the browser computes for each element; \<open>outerHTML\<close> is the
  serialisation of the browser. Both are parameters of the model. \<open>embedMarkers\<close> is
  called with its default trim of 4. \<open>bundleSvg\<close> is the function \<open>bundle\<close> (a reserved
  word here); it returns the markup, \<open>download\<close> hands the
  file name and the markup to \<open>saveAs\<close>; a failure of \<open>embedMarkers\<close> or of \<open>flattenSVG\<close>
  ends either.
\<close>

record Browser =
  createInlineStyledSvg :: "Element \<Rightarrow> ExportTarget \<Rightarrow> Element"
  outerHTML :: "Element \<Rightarrow> string"

definition bundleSvg :: "Runtime \<Rightarrow> Browser \<Rightarrow> Element \<Rightarrow> ExportTarget \<Rightarrow> js_error + string" where
  "bundleSvg rt br root' target =
     (let inlineSvg = createInlineStyledSvg br root' target
      in case embedMarkers rt (Finite 4) inlineSvg of
           (Some e, inlineSvg') \<Rightarrow> Inl e
         | (None, inlineSvg') \<Rightarrow>
             (case flattenSVG (selectorEngine rt) inlineSvg' of
                (Some e, inlineSvg'') \<Rightarrow> Inl e
              | (None, inlineSvg'') \<Rightarrow> Inr (outerHTML br inlineSvg'')))"

definition download ::
  "Runtime \<Rightarrow> Browser \<Rightarrow> Element \<Rightarrow> string \<Rightarrow> ExportTarget \<Rightarrow> js_error + string \<times> string" where
  "download rt br root' filename target =
     (let inlineSvg = createInlineStyledSvg br root' target
      in case embedMarkers rt (Finite 4) inlineSvg of
           (Some e, inlineSvg') \<Rightarrow> Inl e
         | (None, inlineSvg') \<Rightarrow>
             (case flattenSVG (selectorEngine rt) inlineSvg' of
                (Some e, inlineSvg'') \<Rightarrow> Inl e
              | (None, inlineSvg'') \<Rightarrow> Inr (filename, outerHTML br inlineSvg'')))"

section \<open>What marker embedding changes\<close>

text \<open>
  Marker embedding writes the attributes \<open>x1\<close>, \<open>y1\<close>, \<open>x2\<close>, \<open>y2\<close> and \<open>d\<close>, removes the two
  marker attributes and appends children to the root. \<open>stable e\<close> is the element \<open>e\<close> with
  these attributes left out, in the whole tree: the part of a document that marker
  embedding leaves alone.
\<close>

definition volatile :: "string list" where
  "volatile = [''x1'', ''y1'', ''x2'', ''y2'', ''d'', ''marker-end'', ''marker-start'']"

fun stable :: "Element \<Rightarrow> Element" where
  "stable (Element t a s cs) =
     Element t (filter (\<lambda>kv. fst kv \<notin> set volatile) a) s (map stable cs)"

definition appendChildren :: "Element list \<Rightarrow> Element \<Rightarrow> Element" where
  "appendChildren cs e = Element (tagName e) (attributes e) (style e) (children e @ cs)"

lemma stable_sel:
  "tagName (stable e) = tagName e"
  "style (stable e) = style e"
  "children (stable e) = map stable (children e)"
  "attributes (stable e) = filter (\<lambda>kv. fst kv \<notin> set volatile) (attributes e)"
  by (cases e; simp)+

lemma filter_assign:
  "P name \<Longrightarrow> filter (\<lambda>kv. \<not> P (fst kv)) (assign name v kvs) = filter (\<lambda>kv. \<not> P (fst kv)) kvs"
  by (induction kvs) auto

lemma stable_setAttribute:
  "name \<in> set volatile \<Longrightarrow> stable (setAttribute name v e) = stable e"
  using filter_assign[of "\<lambda>n. n \<in> set volatile" name v "attributes e"]
  by (cases e) (simp add: setAttribute_def)

lemma stable_removeAttribute:
  "name \<in> set volatile \<Longrightarrow> stable (removeAttribute name e) = stable e"
  by (cases e) (auto simp: removeAttribute_def intro: filter_cong)

lemma stable_trimLine: "stable (trimLine rt trimPixels el isEnd) = stable el"
  by (simp add: trimLine_def Let_def stable_setAttribute volatile_def)

lemma stable_trimPath: "trimPath rt trimPixels el isEnd = Inr el' \<Longrightarrow> stable el' = stable el"
  by (auto simp: trimPath_def Let_def stable_setAttribute volatile_def split: if_splits option.splits)

lemma stable_updateAt:
  "(\<And>el. nodeAt e h = Some el \<Longrightarrow> stable (f el) = stable el) \<Longrightarrow>
   stable (updateAt h f e) = stable e"
proof (induction h arbitrary: e)
  case Nil
  then show ?case by simp
next
  case (Cons i h)
  show ?case
  proof (cases "i < length (children e)")
    case True
    have "stable (updateAt h f (children e ! i)) = stable (children e ! i)"
      using Cons.prems True by (intro Cons.IH) simp
    then have "map stable ((children e)[i := updateAt h f (children e ! i)]) = map stable (children e)"
      using True by (simp add: map_update list_update_same_conv)
    then show ?thesis
      using True by (cases e) simp
  next
    case False
    then show ?thesis by simp
  qed
qed

lemma stable_appendChild: "stable (appendChild c e) = appendChildren [stable c] (stable e)"
  by (cases e) (simp add: appendChild_def appendChildren_def)

lemma appendChildren_twice:
  "appendChildren ds (appendChildren cs e) = appendChildren (cs @ ds) e"
  by (simp add: appendChildren_def)

lemma appendChildren_Nil: "appendChildren [] e = e"
  by (cases e) (simp add: appendChildren_def)

lemma nodeAt_stable: "nodeAt (stable e) h = map_option stable (nodeAt e h)"
  by (induction h arbitrary: e) (auto simp: stable_sel)

subsection \<open>Queries that do not read the written attributes\<close>

lemma select_stable:
  "(\<And>x. P (stable x) = P x) \<Longrightarrow> selectSelf P (stable e) = selectSelf P e"
  "(\<And>x. P (stable x) = P x) \<Longrightarrow> selectList P (map stable cs) i = selectList P cs i"
proof (induction P e and P cs i rule: selectSelf_selectList.induct)
  case (1 P t a s cs)
  have "P (Element t (filter (\<lambda>kv. fst kv \<notin> set volatile) a) s (map stable cs))
      = P (Element t a s cs)"
    using "1.prems"[of "Element t a s cs"] by simp
  then show ?case
    using "1.IH" "1.prems" by simp
next
  case (2 P i)
  then show ?case by simp
next
  case (3 P c cs i)
  then show ?case by simp
qed

lemma selectList_append:
  "selectList P (cs @ ds) i = selectList P cs i @ selectList P ds (i + length cs)"
  by (induction cs arbitrary: i) auto

lemma querySelectorAll_stable:
  assumes "\<And>x. P (stable x) = P x"
  shows "querySelectorAll P (stable e) = querySelectorAll P e"
  using select_stable(2)[of P "children e" 0] assms
  by (simp add: querySelectorAll_def stable_sel)

lemma querySelectorAll_appendChildren:
  "querySelectorAll P (appendChildren cs e)
     = querySelectorAll P e @ selectList P cs (length (children e))"
  by (simp add: querySelectorAll_def appendChildren_def selectList_append)

lemma byTag_stable: "byTag t (stable x) = byTag t x"
  by (simp add: byTag_def stable_sel)

lemma byId_stable: "byId i (stable x) = byId i x"
proof -
  have "map_of (filter (\<lambda>kv. fst kv \<notin> set volatile) kvs) ''id'' = map_of kvs ''id''"
    for kvs :: "(string \<times> string) list"
    by (induction kvs) (auto simp: volatile_def)
  then show ?thesis
    by (simp add: byId_def getAttribute_def stable_sel)
qed

subsection \<open>The data of the nodes through one step\<close>

text \<open>The attribute \<open>name\<close> of the node at handle \<open>k\<close>, \<open>None\<close> without such a node or attribute.\<close>

definition attrAt :: "Element \<Rightarrow> handle \<Rightarrow> string \<Rightarrow> string option" where
  "attrAt e k name = (case nodeAt e k of None \<Rightarrow> None | Some x \<Rightarrow> getAttribute x name)"

lemma dataAt_replace:
  "nodeAt e h = Some el \<Longrightarrow> children el' = children el \<Longrightarrow>
   dataAt (updateAt h (\<lambda>x. el') e) k = (if k = h then Some (nodeData el') else dataAt e k)"
proof (induction h arbitrary: e k)
  case Nil
  then show ?case by (cases k) (simp_all add: dataAt_def)
next
  case (Cons i h)
  then have i: "i < length (children e)" and sub: "nodeAt (children e ! i) h = Some el"
    by (simp_all split: if_splits)
  show ?case
  proof (cases k)
    case Nil
    then show ?thesis using i by (simp add: dataAt_def nodeData_def)
  next
    case (Cons j k')
    then show ?thesis
      using Cons.IH[OF sub Cons.prems(2), of k'] i
      by (auto simp: dataAt_def nth_list_update)
  qed
qed

lemma updateAt_at:
  "nodeAt e h = Some el \<Longrightarrow> updateAt h f e = updateAt h (\<lambda>x. f el) e"
  by (induction h arbitrary: e) (auto split: if_splits)

lemma dataAt_appendChild:
  "nodeAt e k \<noteq> None \<Longrightarrow> dataAt (appendChild c e) k = dataAt e k"
  by (cases k) (auto simp: dataAt_def appendChild_def nodeData_def nth_append split: if_splits)

lemma attrAt_dataAt:
  "attrAt e k name = (case dataAt e k of None \<Rightarrow> None | Some d \<Rightarrow> map_of (fst (snd d)) name)"
  by (simp add: attrAt_def dataAt_def nodeData_def getAttribute_def split: option.splits)

lemma nodeAt_dataAt: "nodeAt e k = None \<longleftrightarrow> dataAt e k = None"
  by (simp add: dataAt_def)

text \<open>
  The document after a step that places an arrow: the element at \<open>h\<close> was replaced by its
  trimmed form \<open>el'\<close>, the glyph \<open>c\<close> appended, the marker attribute removed.
\<close>

lemma dataAt_step:
  assumes h: "nodeAt e h = Some el" and ch: "children el' = children el"
    and k: "nodeAt e k \<noteq> None"
  shows "dataAt (updateAt h (removeAttribute name) (appendChild c (updateAt h (\<lambda>x. el') e))) k
           = (if k = h then Some (nodeData (removeAttribute name el')) else dataAt e k)"
proof -
  let ?e1 = "updateAt h (\<lambda>x. el') e"
  let ?e2 = "appendChild c ?e1"
  have d1: "dataAt ?e1 j = (if j = h then Some (nodeData el') else dataAt e j)" for j
    using dataAt_replace[OF h ch] by simp
  have v1: "nodeAt ?e1 j \<noteq> None" if "nodeAt e j \<noteq> None" for j
    using d1[of j] that by (cases "j = h") (simp_all add: nodeAt_dataAt)
  have d2: "dataAt ?e2 j = dataAt ?e1 j" if "nodeAt e j \<noteq> None" for j
    using v1[OF that] by (rule dataAt_appendChild)
  have hv: "nodeAt e h \<noteq> None" using h by simp
  have n2: "dataAt ?e2 h = Some (nodeData el')"
    using d2[OF hv] d1[of h] by simp
  then obtain el2 where el2: "nodeAt ?e2 h = Some el2" "nodeData el2 = nodeData el'"
    by (auto simp: dataAt_def)
  have "updateAt h (removeAttribute name) ?e2 = updateAt h (\<lambda>x. removeAttribute name el2) ?e2"
    using el2(1) by (rule updateAt_at)
  moreover have "children (removeAttribute name el2) = children el2"
    by (simp add: removeAttribute_def)
  ultimately have "dataAt (updateAt h (removeAttribute name) ?e2) k
      = (if k = h then Some (nodeData (removeAttribute name el2)) else dataAt ?e2 k)"
    using dataAt_replace[OF el2(1), of "removeAttribute name el2" k] by simp
  moreover have "nodeData (removeAttribute name el2) = nodeData (removeAttribute name el')"
    using el2(2) by (simp add: nodeData_def removeAttribute_def)
  ultimately show ?thesis
    using d2[OF k] d1[of k] by simp
qed

subsection \<open>One step of marker embedding\<close>

text \<open>The trimmed form of an element: what \<open>trimLine\<close> and \<open>trimPath\<close> leave of it.\<close>

definition trimmedFrom :: "Element \<Rightarrow> Element \<Rightarrow> bool" where
  "trimmedFrom el el' =
     (stable el' = stable el \<and> children el' = children el \<and> tagName el' = tagName el
      \<and> getAttribute el' ''marker-end'' = getAttribute el ''marker-end''
      \<and> getAttribute el' ''marker-start'' = getAttribute el ''marker-start''
      \<and> (hasAttribute el ''d'' \<longrightarrow> hasAttribute el' ''d''))"

lemma trimLine_trimmedFrom: "trimmedFrom el (trimLine rt trimPixels el isEnd)"
  by (simp add: trimmedFrom_def stable_trimLine)
     (simp add: trimLine_def Let_def setAttribute_sel getAttribute_setAttribute hasAttribute_def)

lemma trimPath_trimmedFrom:
  "trimPath rt trimPixels el isEnd = Inr el' \<Longrightarrow> trimmedFrom el el'"
  using stable_trimPath[of rt trimPixels el isEnd el']
  by (auto simp: trimmedFrom_def trimPath_def Let_def setAttribute_sel getAttribute_setAttribute
      hasAttribute_def split: if_splits option.splits)

lemma trimPath_defined:
  "hasAttribute el ''d'' \<Longrightarrow> \<exists>el'. trimPath rt trimPixels el isEnd = Inr el'"
  by (auto simp: trimPath_def Let_def hasAttribute_def)

text \<open>
  A call of \<open>processMarker\<close> either leaves the document as it is, or trims the element and
  goes on to place the arrow.
\<close>

lemma processMarker_result:
  "(\<exists>r. processMarker rt trimPixels h markerPosition svgElement = (r, svgElement))
   \<or> (\<exists>el markerUrl marker x y angle el'.
         nodeAt svgElement h = Some el \<and> getAttribute el markerPosition = Some markerUrl
       \<and> markerUrl \<noteq> [] \<and> trimmedFrom el el'
       \<and> querySelectorString (selectorEngine rt) (CHR ''#'' # markerIdOf markerUrl) svgElement
           = Inr marker
       \<and> processMarker rt trimPixels h markerPosition svgElement
           = placeArrow rt h markerPosition marker x y angle
               (updateAt h (\<lambda>x. el') svgElement))"
proof (cases "nodeAt svgElement h")
  case None
  then show ?thesis by (simp add: processMarker_def)
next
  case (Some el)
  note el = this
  show ?thesis
  proof (cases "getAttribute el markerPosition")
    case None
    then show ?thesis using el by (simp add: processMarker_def)
  next
    case (Some markerUrl)
    note url = this
    show ?thesis
    proof (cases "markerUrl = []")
      case True
      then show ?thesis using el url by (simp add: processMarker_def)
    next
      case False
      let ?isEnd = "markerPosition = ''marker-end''"
      show ?thesis
      proof (cases "querySelectorString (selectorEngine rt) (CHR ''#'' # markerIdOf markerUrl)
          svgElement")
        case (Inl e)
        then show ?thesis
          using el url False by (simp add: processMarker_def Let_def)
      next
        case (Inr marker)
        note q = this
        consider (line) "toLowerCase (tagName el) = ''line''"
          | (path) "toLowerCase (tagName el) \<noteq> ''line''" "toLowerCase (tagName el) = ''path''"
          | (other) "toLowerCase (tagName el) \<noteq> ''line''" "toLowerCase (tagName el) \<noteq> ''path''"
          by blast
        then show ?thesis
        proof cases
          case line
          obtain x y angle where a: "lineAnchor rt el ?isEnd = (x, y, angle)"
            by (cases "lineAnchor rt el ?isEnd") auto
          have "processMarker rt trimPixels h markerPosition svgElement
              = placeArrow rt h markerPosition marker x y angle
                  (updateAt h (\<lambda>el. trimLine rt trimPixels el ?isEnd) svgElement)"
            using el url False line a q by (simp add: processMarker_def Let_def)
          also have "updateAt h (\<lambda>el. trimLine rt trimPixels el ?isEnd) svgElement
              = updateAt h (\<lambda>x. trimLine rt trimPixels el ?isEnd) svgElement"
            using el by (rule updateAt_at)
          finally show ?thesis
            using el url False q trimLine_trimmedFrom[of el rt trimPixels ?isEnd] by blast
        next
          case path
          obtain x y angle where a: "pathAnchor rt el ?isEnd = (x, y, angle)"
            by (cases "pathAnchor rt el ?isEnd") auto
          show ?thesis
          proof (cases "trimPath rt trimPixels el ?isEnd")
            case (Inl e)
            then show ?thesis
              using el url False path a q by (simp add: processMarker_def Let_def)
          next
            case (Inr el')
            then have "processMarker rt trimPixels h markerPosition svgElement
                = placeArrow rt h markerPosition marker x y angle
                    (updateAt h (\<lambda>x. el') svgElement)"
              using el url False path a q by (simp add: processMarker_def Let_def)
            then show ?thesis
              using el url False q trimPath_trimmedFrom[OF Inr] by blast
          qed
        next
          case other
          then show ?thesis
            using el url False q by (simp add: processMarker_def Let_def)
        qed
      qed
    qed
  qed
qed

subsection \<open>Marker embedding flattens nothing\<close>

lemma placeArrow_result:
  "(\<exists>r. placeArrow rt h markerPosition marker x y angle svgElement = (r, svgElement))
   \<or> (\<exists>m markerElement glyph T.
         marker = Some m \<and> nodeAt svgElement m = Some markerElement
       \<and> firstChild markerElement = Some glyph
       \<and> placeArrow rt h markerPosition marker x y angle svgElement
           = (None, updateAt h (removeAttribute markerPosition)
                      (appendChild (setAttribute ''transform'' T glyph) svgElement)))"
  by (auto simp: placeArrow_def Let_def split: option.splits)

lemma placeArrow_stable:
  assumes "markerPosition \<in> set volatile"
  shows "\<exists>cs. stable (snd (placeArrow rt h markerPosition marker x y angle svgElement))
           = appendChildren cs (stable svgElement)"
proof -
  have "stable (updateAt h (removeAttribute markerPosition) (appendChild c svgElement))
      = appendChildren [stable c] (stable svgElement)" for c
    using assms by (simp add: stable_updateAt stable_removeAttribute stable_appendChild)
  moreover have "stable svgElement = appendChildren [] (stable svgElement)"
    by (simp add: appendChildren_Nil)
  ultimately show ?thesis
    using placeArrow_result[of rt h markerPosition marker x y angle svgElement]
    by (metis snd_conv)
qed

lemma processMarker_stable:
  assumes "markerPosition \<in> set volatile"
  shows "\<exists>cs. stable (snd (processMarker rt trimPixels h markerPosition svgElement))
           = appendChildren cs (stable svgElement)"
proof -
  have same: "stable svgElement = appendChildren [] (stable svgElement)"
    by (simp add: appendChildren_Nil)
  have "stable (updateAt h (\<lambda>x. el') svgElement) = stable svgElement"
    if "nodeAt svgElement h = Some el" "trimmedFrom el el'" for el el'
    using that by (intro stable_updateAt) (simp add: trimmedFrom_def)
  then show ?thesis
    using processMarker_result[of rt trimPixels h markerPosition svgElement] same
      placeArrow_stable[OF assms]
    by (metis snd_conv)
qed

lemma processMarkers_stable:
  "\<forall>item\<in>set todo. snd item \<in> set volatile \<Longrightarrow>
   \<exists>cs. stable (snd (processMarkers rt trimPixels todo svgElement))
          = appendChildren cs (stable svgElement)"
proof (induction todo arbitrary: svgElement)
  case Nil
  then show ?case
    using appendChildren_Nil[of "stable svgElement"] by (simp, metis)
next
  case (Cons item todo)
  obtain h markerPosition where item: "item = (h, markerPosition)" by (cases item)
  obtain r svg' where step: "processMarker rt trimPixels h markerPosition svgElement = (r, svg')"
    by (cases "processMarker rt trimPixels h markerPosition svgElement")
  obtain cs where cs: "stable svg' = appendChildren cs (stable svgElement)"
    using processMarker_stable[of markerPosition rt trimPixels h svgElement] Cons.prems item step
    by auto
  show ?case
  proof (cases r)
    case None
    obtain ds where "stable (snd (processMarkers rt trimPixels todo svg'))
        = appendChildren ds (stable svg')"
      using Cons.IH[of svg'] Cons.prems by auto
    then show ?thesis
      using item step None cs by (auto simp: appendChildren_twice)
  next
    case (Some e)
    then show ?thesis
      using item step cs by auto
  qed
qed

lemma embedMarkers_stable:
  "\<exists>cs. stable (snd (embedMarkers rt trimPixels svgElement))
          = appendChildren cs (stable svgElement)"
  unfolding embedMarkers_def Let_def
  by (intro processMarkers_stable) (auto simp: volatile_def)

lemma embedMarkers_keeps:
  assumes "\<And>x. P (stable x) = P x"
  shows "prefix (querySelectorAll P svgElement)
           (querySelectorAll P (snd (embedMarkers rt trimPixels svgElement)))"
proof -
  obtain cs where "stable (snd (embedMarkers rt trimPixels svgElement))
      = appendChildren cs (stable svgElement)"
    using embedMarkers_stable by blast
  then have "querySelectorAll P (snd (embedMarkers rt trimPixels svgElement))
      = querySelectorAll P svgElement @ selectList P cs (length (children (stable svgElement)))"
    using querySelectorAll_stable[of P, OF assms] querySelectorAll_appendChildren[of P cs]
    by metis
  then show ?thesis by simp
qed

text \<open>
  Claim C1, as the code has it. \<open>bundle\<close> and \<open>download\<close> run marker embedding on the
  inline-styled copy first and flatten the document that marker embedding leaves; and
  marker embedding flattens nothing: every \<open>use\<close> element and every \<open>defs\<close> element of the
  copy is still in the document when marker embedding completes. Flattening is the last
  step, applied after marker embedding has completed, not before.
\<close>

theorem export_embeds_then_flattens:
  "bundleSvg rt br root' target
     = (case embedMarkers rt (Finite 4) (createInlineStyledSvg br root' target) of
          (Some e, d) \<Rightarrow> Inl e
        | (None, d) \<Rightarrow>
            (case flattenSVG (selectorEngine rt) d of
               (Some e, d') \<Rightarrow> Inl e
             | (None, d') \<Rightarrow> Inr (outerHTML br d')))
   \<and> download rt br root' filename target
     = (case embedMarkers rt (Finite 4) (createInlineStyledSvg br root' target) of
          (Some e, d) \<Rightarrow> Inl e
        | (None, d) \<Rightarrow>
            (case flattenSVG (selectorEngine rt) d of
               (Some e, d') \<Rightarrow> Inl e
             | (None, d') \<Rightarrow> Inr (filename, outerHTML br d')))
   \<and> prefix (querySelectorAll (byTag ''use'') (createInlineStyledSvg br root' target))
        (querySelectorAll (byTag ''use'')
           (snd (embedMarkers rt (Finite 4) (createInlineStyledSvg br root' target))))
   \<and> prefix (querySelectorAll (byTag ''defs'') (createInlineStyledSvg br root' target))
        (querySelectorAll (byTag ''defs'')
           (snd (embedMarkers rt (Finite 4) (createInlineStyledSvg br root' target))))"
  using embedMarkers_keeps[of "byTag ''use''" "createInlineStyledSvg br root' target" rt "Finite 4"]
    embedMarkers_keeps[of "byTag ''defs''" "createInlineStyledSvg br root' target" rt "Finite 4"]
  by (simp add: bundleSvg_def download_def byTag_stable)

text \<open>
  A drawing for the examples: an arrowhead marker under \<open>defs\<close>, a line from (0, 0) to
  (10, 0) with the marker at its end, and a \<open>use\<close> reference.
\<close>

definition exampleDrawing :: Element where
  "exampleDrawing =
     Element ''svg'' [] None
       [Element ''defs'' [] None
          [Element ''marker'' [(''id'', ''arrow''), (''refX'', ''5''), (''refY'', ''5'')] None
             [Element ''path'' [(''d'', ''M 0 0 L 10 5 L 0 10 z'')] None []]],
        Element ''line'' [(''x1'', ''0''), (''y1'', ''0''), (''x2'', ''10''), (''y2'', ''0''),
                          (''marker-end'', ''url(#arrow)'')] None [],
        Element ''use'' [(''href'', ''#arrow'')] None []]"

text \<open>
  Claim C1 as stated has the flattening applied before marker embedding completes. On the
  example drawing, whatever the runtime: when marker embedding has completed (the marker
  attribute is gone and the arrow is appended) the document still has its \<open>defs\<close> element
  and its \<open>use\<close> element, and \<open>bundle\<close> returns the markup of this document flattened
  afterwards, which raises no failure.
\<close>

theorem export_flattens_first_counterexample:
  "\<forall>rt br.
     fst (embedMarkers rt (Finite 4) exampleDrawing) = None
   \<and> querySelectorAll (lineOrPathWith ''marker-end'') (snd (embedMarkers rt (Finite 4) exampleDrawing)) = []
   \<and> length (children (snd (embedMarkers rt (Finite 4) exampleDrawing))) = 4
   \<and> querySelectorAll (byTag ''defs'') (snd (embedMarkers rt (Finite 4) exampleDrawing)) = [[0]]
   \<and> querySelectorAll (byTag ''use'') (snd (embedMarkers rt (Finite 4) exampleDrawing)) = [[2]]
   \<and> fst (flattenSVG (selectorEngine rt) (snd (embedMarkers rt (Finite 4) exampleDrawing))) = None
   \<and> bundleSvg rt (br\<lparr>createInlineStyledSvg := \<lambda>d target. d\<rparr>) exampleDrawing BROWSER
     = Inr (outerHTML br
         (snd (flattenSVG (selectorEngine rt) (snd (embedMarkers rt (Finite 4) exampleDrawing)))))"
proof (intro allI)
  fix rt :: Runtime and br :: Browser
  let ?T = "arrowTransform rt
      (Element ''marker'' [(''id'', ''arrow''), (''refX'', ''5''), (''refY'', ''5'')] None
         [Element ''path'' [(''d'', ''M 0 0 L 10 5 L 0 10 z'')] None []])
      ''marker-end'' (parseFloat rt (Some ''10'')) (parseFloat rt (Some ''0''))
      (Math_atan2 rt (subN (parseFloat rt (Some ''0'')) (parseFloat rt (Some ''0'')))
         (subN (parseFloat rt (Some ''10'')) (parseFloat rt (Some ''0''))))"
  let ?x2 = "toString rt (subN (parseFloat rt (Some ''10''))
      (mulN (Finite 4) (Math_cos rt (Math_atan2 rt
         (subN (parseFloat rt (Some ''0'')) (parseFloat rt (Some ''0'')))
         (subN (parseFloat rt (Some ''10'')) (parseFloat rt (Some ''0'')))))))"
  let ?y2 = "toString rt (subN (parseFloat rt (Some ''0''))
      (mulN (Finite 4) (Math_sin rt (Math_atan2 rt
         (subN (parseFloat rt (Some ''0'')) (parseFloat rt (Some ''0'')))
         (subN (parseFloat rt (Some ''10'')) (parseFloat rt (Some ''0'')))))))"
  have run: "embedMarkers rt (Finite 4) exampleDrawing =
      (None,
       Element ''svg'' [] None
         [Element ''defs'' [] None
            [Element ''marker'' [(''id'', ''arrow''), (''refX'', ''5''), (''refY'', ''5'')] None
               [Element ''path'' [(''d'', ''M 0 0 L 10 5 L 0 10 z'')] None []]],
          Element ''line'' [(''x1'', ''0''), (''y1'', ''0''), (''x2'', ?x2), (''y2'', ?y2)] None [],
          Element ''use'' [(''href'', ''#arrow'')] None [],
          Element ''path'' [(''d'', ''M 0 0 L 10 5 L 0 10 z''), (''transform'', ?T)] None []])"
    by (simp add: embedMarkers_def exampleDrawing_def querySelectorAll_def lineOrPathWith_def
        byTag_def hasAttribute_def getAttribute_def processMarker_def Let_def toLowerCase_def
        markerIdOf_def querySelector_def byId_def placeArrow_def firstChild_def lineAnchor_def
        trimLine_def attributeOrZero_def setAttribute_def removeAttribute_def appendChild_def
        querySelectorString_def cssIdentifier_def identStart_def identChar_def)
  have flat: "fst (flattenSVG (selectorEngine rt) (snd (embedMarkers rt (Finite 4) exampleDrawing)))
      = None"
    unfolding run
    by (simp add: flattenSVG_def querySelectorAll_def byTag_def resolveUse_def useHref_def
        getAttribute_def querySelectorString_def cssIdentifier_def identStart_def identChar_def
        querySelector_def byId_def split: prod.splits)
  obtain e d' where f:
    "flattenSVG (selectorEngine rt) (snd (embedMarkers rt (Finite 4) exampleDrawing)) = (e, d')"
    by (cases "flattenSVG (selectorEngine rt) (snd (embedMarkers rt (Finite 4) exampleDrawing))")
  with flat have e: "e = None"
    by simp
  have b: "bundleSvg rt (br\<lparr>createInlineStyledSvg := \<lambda>d target. d\<rparr>) exampleDrawing BROWSER
      = Inr (outerHTML br
          (snd (flattenSVG (selectorEngine rt) (snd (embedMarkers rt (Finite 4) exampleDrawing)))))"
    using f e by (simp add: bundleSvg_def run)
  have "fst (embedMarkers rt (Finite 4) exampleDrawing) = None
   \<and> querySelectorAll (lineOrPathWith ''marker-end'') (snd (embedMarkers rt (Finite 4) exampleDrawing)) = []
   \<and> length (children (snd (embedMarkers rt (Finite 4) exampleDrawing))) = 4
   \<and> querySelectorAll (byTag ''defs'') (snd (embedMarkers rt (Finite 4) exampleDrawing)) = [[0]]
   \<and> querySelectorAll (byTag ''use'') (snd (embedMarkers rt (Finite 4) exampleDrawing)) = [[2]]"
    unfolding run
    by (simp add: querySelectorAll_def lineOrPathWith_def byTag_def hasAttribute_def
        getAttribute_def)
  with flat b show "fst (embedMarkers rt (Finite 4) exampleDrawing) = None
   \<and> querySelectorAll (lineOrPathWith ''marker-end'') (snd (embedMarkers rt (Finite 4) exampleDrawing)) = []
   \<and> length (children (snd (embedMarkers rt (Finite 4) exampleDrawing))) = 4
   \<and> querySelectorAll (byTag ''defs'') (snd (embedMarkers rt (Finite 4) exampleDrawing)) = [[0]]
   \<and> querySelectorAll (byTag ''use'') (snd (embedMarkers rt (Finite 4) exampleDrawing)) = [[2]]
   \<and> fst (flattenSVG (selectorEngine rt) (snd (embedMarkers rt (Finite 4) exampleDrawing))) = None
   \<and> bundleSvg rt (br\<lparr>createInlineStyledSvg := \<lambda>d target. d\<rparr>) exampleDrawing BROWSER
     = Inr (outerHTML br
         (snd (flattenSVG (selectorEngine rt) (snd (embedMarkers rt (Finite 4) exampleDrawing)))))"
    by simp
qed


end
